theory Spec2Isabelle
  imports Main "HOL-Library.Sublist"
begin

section \<open>Text: the string operations the backend uses\<close>

text \<open>
  A Python \<open>str\<close> is modelled as a \<open>string\<close>; each \<open>char\<close> stands for the code point
  of the same number, so the model covers the texts whose code points are below 256.
  \<open>is_space\<close> is \<open>str.isspace\<close> on one such character (it is also what \<open>\s\<close> matches in
  a \<open>str\<close> pattern), \<open>is_digit\<close> is what \<open>\d\<close> matches there.
\<close>

definition is_digit :: "char \<Rightarrow> bool" where
  "is_digit c = (c \<in> set ''0123456789'')"

definition is_space :: "char \<Rightarrow> bool" where
  "is_space c = ((of_char c :: nat) \<in> set [9, 10, 11, 12, 13, 28, 29, 30, 31, 32, 133, 160])"

definition strip :: "string \<Rightarrow> string" where
  "strip s = rev (dropWhile is_space (rev (dropWhile is_space s)))"

text \<open>\<open>needle in hay\<close> on strings.\<close>

fun contains :: "string \<Rightarrow> string \<Rightarrow> bool" where
  "contains needle [] = (needle = [])"
| "contains needle (c # cs) = (prefix needle (c # cs) \<or> contains needle cs)"

text \<open>\<open>str(n)\<close> for an integer: the decimal digits, with a minus sign when negative.\<close>

definition digit_char :: "nat \<Rightarrow> char" where
  "digit_char d = char_of (48 + d)"

fun show_nat :: "nat \<Rightarrow> string" where
  "show_nat n = (if n < 10 then [digit_char n] else show_nat (n div 10) @ [digit_char (n mod 10)])"

declare show_nat.simps [simp del]

definition show_int :: "int \<Rightarrow> string" where
  "show_int i = (if i < 0 then CHR ''-'' # show_nat (nat (- i)) else show_nat (nat i))"

text \<open>The value of a string of decimal digits.\<close>

definition digit_val :: "char \<Rightarrow> nat" where
  "digit_val c = of_char c - 48"

definition dec_of :: "string \<Rightarrow> nat" where
  "dec_of s = foldl (\<lambda>a c. 10 * a + digit_val c) 0 s"

section \<open>The regular expression of \<open>run_evolution\<close>\<close>

text \<open>
  \<open>metric_pattern\<close> is
  \<^verbatim>\<open>Generation\s*\[(\d+)/(\d+)\]:.*Avg Reward:\s*([\d\.]+).*Best Reward:\s*([\d\.]+)\<close>:
  a sequence of literals, greedy starred character classes and capturing groups of a
  greedy \<open>+\<close> over a character class. \<open>re_match\<close> is the backtracking matcher of
  Python's \<open>re\<close> on such a sequence, anchored at the start of the text: a greedy
  repetition takes the longest run first and gives characters back one at a time until
  the rest of the pattern matches. The result is the list of captured groups.
  \<open>re_search\<close> tries the start positions from left to right, as \<open>pattern.search\<close> does.
\<close>

datatype cclass = Digit | Space | AnyChar | DigitOrDot

fun in_class :: "cclass \<Rightarrow> char \<Rightarrow> bool" where
  "in_class Digit c = is_digit c"
| "in_class Space c = is_space c"
| "in_class AnyChar c = (c \<noteq> CHR 0x0A)"
| "in_class DigitOrDot c = (is_digit c \<or> c = CHR ''.'')"

datatype re_item = Lit string | Star cclass | GroupPlus cclass

fun first_some :: "('a \<Rightarrow> 'b option) \<Rightarrow> 'a list \<Rightarrow> 'b option" where
  "first_some f [] = None"
| "first_some f (x # xs) = (case f x of Some y \<Rightarrow> Some y | None \<Rightarrow> first_some f xs)"

definition run :: "cclass \<Rightarrow> string \<Rightarrow> nat" where
  "run c s = length (takeWhile (in_class c) s)"

fun re_match :: "re_item list \<Rightarrow> string \<Rightarrow> string list option" where
  "re_match [] s = Some []"
| "re_match (Lit l # r) s =
     (if prefix l s then re_match r (drop (length l) s) else None)"
| "re_match (Star c # r) s =
     first_some (\<lambda>k. re_match r (drop k s)) (rev [0 ..< Suc (run c s)])"
| "re_match (GroupPlus c # r) s =
     first_some (\<lambda>k. map_option ((#) (take k s)) (re_match r (drop k s)))
       (rev [1 ..< Suc (run c s)])"

definition re_search :: "re_item list \<Rightarrow> string \<Rightarrow> string list option" where
  "re_search p s = first_some (\<lambda>i. re_match p (drop i s)) [0 ..< Suc (length s)]"

definition metric_pattern :: "re_item list" where
  "metric_pattern =
     [Lit ''Generation'', Star Space, Lit ''['', GroupPlus Digit, Lit ''/'', GroupPlus Digit,
      Lit '']:'', Star AnyChar, Lit ''Avg Reward:'', Star Space, GroupPlus DigitOrDot,
      Star AnyChar, Lit ''Best Reward:'', Star Space, GroupPlus DigitOrDot]"

section \<open>Python values the backend computes with\<close>

text \<open>
  Floating-point numbers are kept abstract: \<open>'f\<close> is the type of Python floats and the
  record \<open>python\<close> holds the operations of the interpreter that the code calls on them
  (\<open>float_lit s\<close> is the float denoted by the numeral \<open>s\<close>), together with \<open>json.dumps\<close>
  and the interpreter's limit on the number of digits \<open>int()\<close> converts (0 for no limit,
  4300 unless configured).
\<close>

datatype 'f json =
    JNull | JBool bool | JInt int | JFloat 'f | JStr string
  | JList "'f json list" | JDict "(string \<times> 'f json) list"

record 'f python =
  float_lit :: "string \<Rightarrow> 'f"
  fsub :: "'f \<Rightarrow> 'f \<Rightarrow> 'f"
  fadd :: "'f \<Rightarrow> 'f \<Rightarrow> 'f"
  fmin :: "'f \<Rightarrow> 'f \<Rightarrow> 'f"
  format_4f :: "'f \<Rightarrow> string"
  dumps :: "'f json \<Rightarrow> string"
  int_max_str_digits :: nat

text \<open>
  The exceptions of the model, each with its message. \<open>CancelledError\<close> derives from
  \<open>BaseException\<close>, so an \<open>except Exception\<close> clause does not catch it; the others
  derive from \<open>Exception\<close>.
\<close>

datatype exn =
    ValueError string | UnicodeDecodeError string | OSError string | ClientError string
  | CancelledError

fun str_exn :: "exn \<Rightarrow> string" where
  "str_exn (ValueError m) = m"
| "str_exn (UnicodeDecodeError m) = m"
| "str_exn (OSError m) = m"
| "str_exn (ClientError m) = m"
| "str_exn CancelledError = []"

fun is_Exception :: "exn \<Rightarrow> bool" where
  "is_Exception CancelledError = False"
| "is_Exception _ = True"

text \<open>
  \<open>int(s)\<close> and \<open>float(s)\<close> on the strings the pattern can capture: \<open>int\<close> is given a
  non-empty string of digits and fails only beyond the digit limit; \<open>float\<close> is given a
  non-empty string of digits and dots, which is a float numeral exactly when it has a
  digit and at most one dot.
\<close>

definition py_int :: "'f python \<Rightarrow> string \<Rightarrow> exn + int" where
  "py_int py s =
     (if s \<noteq> [] \<and> list_all is_digit s
         \<and> (int_max_str_digits py = 0 \<or> length s \<le> int_max_str_digits py)
      then Inr (int (dec_of s))
      else Inl (ValueError ''invalid literal for int()''))"

definition float_numeral :: "string \<Rightarrow> bool" where
  "float_numeral s =
     (list_all (in_class DigitOrDot) s \<and> list_ex is_digit s \<and> length (filter ((=) CHR ''.'') s) \<le> 1)"

definition py_float :: "'f python \<Rightarrow> string \<Rightarrow> exn + 'f" where
  "py_float py s =
     (if float_numeral s then Inr (float_lit py s)
      else Inl (ValueError (''could not convert string to float: '' @ [CHR 0x27] @ s @ [CHR 0x27])))"

text \<open>
  \<open>json.dumps(obj)\<close>. The encoder writes an integer with \<open>int.__repr__\<close>, which raises
  \<open>ValueError\<close> when the integer has more decimal digits than the interpreter's limit;
  otherwise the text is \<open>dumps py obj\<close>. Floats never raise (\<open>allow_nan\<close> is left at its
  default). The record \<open>python\<close> keeps the text itself abstract.
\<close>

fun json_ints :: "'f json \<Rightarrow> int list" where
  "json_ints JNull = []"
| "json_ints (JBool b) = []"
| "json_ints (JInt i) = [i]"
| "json_ints (JFloat x) = []"
| "json_ints (JStr s) = []"
| "json_ints (JList xs) = concat (map json_ints xs)"
| "json_ints (JDict kvs) = concat (map (\<lambda>kv. json_ints (snd kv)) kvs)"

definition int_repr_allowed :: "'f python \<Rightarrow> int \<Rightarrow> bool" where
  "int_repr_allowed py i =
     (int_max_str_digits py = 0 \<or> length (show_nat (nat \<bar>i\<bar>)) \<le> int_max_str_digits py)"

definition json_dumps :: "'f python \<Rightarrow> 'f json \<Rightarrow> exn + string" where
  "json_dumps py obj =
     (if list_all (int_repr_allowed py) (json_ints obj) then Inr (dumps py obj)
      else Inl (ValueError (''Exceeds the limit ('' @ show_nat (int_max_str_digits py)
                             @ '' digits) for integer string conversion'')))"

section \<open>\<open>EvolutionService.run_evolution\<close>: the pump loop\<close>

text \<open>
  The dictionary handed to \<open>json.dumps\<close> for a matched line, from the four captured
  groups. The conversions run in the order of the source: \<open>int(gen)\<close>, \<open>float(avg_rew)\<close>,
  \<open>float(best_rew)\<close>, and \<open>float(avg_rew)\<close> again for the loss; the first one that fails
  raises. \<open>json.dumps\<close> is applied to the dictionary afterwards, in the loop.
\<close>

definition metric_payload :: "'f python \<Rightarrow> string list \<Rightarrow> exn + 'f json" where
  "metric_payload py groups =
     (case groups of
        [gen, total_gen, avg_rew, best_rew] \<Rightarrow>
          (case py_int py gen of
             Inl e \<Rightarrow> Inl e
           | Inr g \<Rightarrow>
               (let step = g * 10 in
                case py_float py avg_rew of
                  Inl e \<Rightarrow> Inl e
                | Inr reward \<Rightarrow>
                    (case py_float py best_rew of
                       Inl e \<Rightarrow> Inl e
                     | Inr success_rate \<Rightarrow>
                         Inr (JDict [(''step'', JInt step),
                                     (''reward'', JFloat reward),
                                     (''success_rate'', JFloat success_rate),
                                     (''loss'', JFloat (fsub py (float_lit py ''1.0'') reward))]))))
      | _ \<Rightarrow> Inl (ValueError ''not enough values to unpack''))"

text \<open>
  What the child process does, as far as the loop can see it: it fails to start
  (\<open>generate_yaml_config\<close> or \<open>Popen\<close> raises), or it writes lines and then exits with a
  return code. A line is what \<open>readline\<close> returned, after \<open>decode('utf-8')\<close>: the text, or
  the exception \<open>decode\<close> raises on bytes that are not UTF-8. The reads that return
  \<open>b''\<close> while the child is still alive produce no event and are not represented, so
  the model covers the children that exit.
\<close>

datatype child = SpawnFails exn | Child "(exn + string) list" int

text \<open>
  The events a generator yields, and the exception that ends it if one does.
  \<open>stream_output\<close> is the \<open>while True\<close> loop, \<open>run_evolution\<close> adds the lines after it.
\<close>

definition yield :: "string \<Rightarrow> string list \<times> exn option \<Rightarrow> string list \<times> exn option" where
  "yield ev rest = (ev # fst rest, snd rest)"

fun stream_output :: "'f python \<Rightarrow> (exn + string) list \<Rightarrow> string list \<times> exn option" where
  "stream_output py [] = ([], None)"
| "stream_output py (line # rest) =
     (case line of
        Inl e \<Rightarrow> ([], Some e)
      | Inr text \<Rightarrow>
          (let decoded_line = strip text in
           case re_search metric_pattern decoded_line of
             None \<Rightarrow> yield (''[STDOUT] '' @ decoded_line) (stream_output py rest)
           | Some groups \<Rightarrow>
               (case metric_payload py groups of
                  Inl e \<Rightarrow> ([''[STDOUT] '' @ decoded_line], Some e)
                | Inr p \<Rightarrow>
                    (case json_dumps py p of
                       Inl e \<Rightarrow> ([''[STDOUT] '' @ decoded_line], Some e)
                     | Inr payload_text \<Rightarrow>
                         yield (''[STDOUT] '' @ decoded_line)
                           (yield (''[METRIC_JSON] '' @ payload_text) (stream_output py rest))))))"

definition run_evolution :: "'f python \<Rightarrow> child \<Rightarrow> string list \<times> exn option" where
  "run_evolution py ch =
     (case ch of
        SpawnFails e \<Rightarrow> ([], Some e)
      | Child lines return_code \<Rightarrow>
          (case stream_output py lines of
             (evs, Some e) \<Rightarrow> (evs, Some e)
           | (evs, None) \<Rightarrow>
               if return_code = 0
               then (evs @ [''[SYSTEM] Evolution process completed successfully.'',
                            ''[SYSTEM] Best agent saved to workspace/outputs/best_agent.pt''], None)
               else (evs @ [''[ERROR] Evolution process failed with exit code '' @ show_int return_code],
                     None)))"

section \<open>The server: its global state and its endpoints\<close>

text \<open>
  The stored training configuration is what \<open>save_config\<close> writes, a \<open>TrainingConfig\<close>;
  the record has the fields the endpoints below read. \<open>None\<close> for the whole
  configuration is the empty dictionary of \<open>database.load_config(...) or {}\<close>.
\<close>

record training_config =
  model_name :: string
  external_api_url :: "string option"
  external_api_token :: "string option"

definition get_external_api_url :: "training_config option \<Rightarrow> string option" where
  "get_external_api_url config_data =
     (case config_data of None \<Rightarrow> None | Some c \<Rightarrow> external_api_url c)"

definition get_external_api_token :: "training_config option \<Rightarrow> string option" where
  "get_external_api_token config_data =
     (case config_data of None \<Rightarrow> Some [] | Some c \<Rightarrow> external_api_token c)"

definition truthy :: "string option \<Rightarrow> bool" where
  "truthy v = (case v of None \<Rightarrow> False | Some s \<Rightarrow> s \<noteq> [])"

datatype level = DEBUG | INFO | WARNING | ERROR

datatype popen = Running | Exited int

fun poll :: "popen \<Rightarrow> int option" where
  "poll Running = None"
| "poll (Exited return_code) = Some return_code"

record 'f http_post =
  post_url :: string
  post_json :: "'f json"
  post_headers :: "(string \<times> string) list"
  post_timeout :: nat

text \<open>
  What the network answers to a POST: a response with its status and the outcome of
  \<open>resp.text()\<close>, or an exception raised by \<open>session.post\<close>.
\<close>

datatype net_result = Response nat "exn + string" | PostRaises exn

datatype 'f task =
    SendEventTask string "string option" string "(string \<times> 'f json) list"
  | ProcessRunnerTask "training_config option"

datatype ws_client = Connected | Gone

record ws_message =
  timestamp :: string
  level :: string
  message :: string
  ident :: string

text \<open>
  The module-level state of \<open>server.py\<close>: \<open>evolution_service.process\<close>, \<open>log_queue\<close>
  (its head is the next item \<open>get\<close> returns), whether \<open>webhook_service.session\<close> exists,
  and what the server has done that can be seen from outside: the POST requests
  attempted, the records written to the loggers, the background tasks scheduled, the
  running \<open>websocket_endpoint\<close> loops with the state of their client, and the messages sent
  over each of them.
\<close>

record 'f server =
  process :: "popen option"
  log_queue :: "string list"
  session :: bool
  posts :: "'f http_post list"
  logged :: "(level \<times> string) list"
  tasks :: "'f task list"
  sockets :: "nat \<rightharpoonup> ws_client"
  sent :: "(nat \<times> ws_message) list"

definition put :: "string \<Rightarrow> 'f server \<Rightarrow> 'f server" where
  "put line sv = sv\<lparr>log_queue := log_queue sv @ [line]\<rparr>"

text \<open>
  The loggers of the backend have no level and no handler of their own: a record goes to
  the root logger, which \<open>logging.basicConfig(level=logging.INFO)\<close> of \<open>server.py\<close> sets
  to \<open>INFO\<close>. A record below that level is dropped; the others are written.
\<close>

fun levelno :: "level \<Rightarrow> nat" where
  "levelno DEBUG = 10"
| "levelno INFO = 20"
| "levelno WARNING = 30"
| "levelno ERROR = 40"

definition basicConfig_level :: level where
  "basicConfig_level = INFO"

definition logger :: "level \<Rightarrow> string \<Rightarrow> 'f server \<Rightarrow> 'f server" where
  "logger lv msg sv =
     (if levelno basicConfig_level \<le> levelno lv then sv\<lparr>logged := logged sv @ [(lv, msg)]\<rparr>
      else sv)"

subsection \<open>\<open>WebhookService.send_event\<close>\<close>

text \<open>
  The result is the exception that leaves the call, if any, and the new state.
  \<open>payload.get("timestamp")\<close> is \<open>None\<close>, hence \<open>null\<close>, when the key is missing.
\<close>

definition webhook_request ::
  "string option \<Rightarrow> string option \<Rightarrow> string \<Rightarrow> (string \<times> 'f json) list \<Rightarrow> 'f http_post" where
  "webhook_request url secret event_type payload =
     (let headers = [(''Content-Type'', ''application/json''),
                     (''X-Agent-Signature'', (case secret of None \<Rightarrow> [] | Some k \<Rightarrow> k)),
                     (''X-Event-Type'', event_type)];
          body = JDict [(''event'', JStr event_type),
                        (''timestamp'', (case map_of payload ''timestamp'' of
                                           None \<Rightarrow> JNull | Some t \<Rightarrow> t)),
                        (''data'', JDict payload)]
      in \<lparr>post_url = the url, post_json = body, post_headers = headers, post_timeout = 5\<rparr>)"

definition send_event ::
  "('f http_post \<Rightarrow> net_result) \<Rightarrow> string option \<Rightarrow> string option \<Rightarrow> string
     \<Rightarrow> (string \<times> 'f json) list \<Rightarrow> 'f server \<Rightarrow> exn option \<times> 'f server" where
  "send_event net url secret event_type payload sv =
     (if \<not> truthy url then (None, sv)
      else
        let sv1 = sv\<lparr>session := True\<rparr>;
            req = webhook_request url secret event_type payload;
            sv2 = sv1\<lparr>posts := posts sv1 @ [req]\<rparr>;
            failed = (\<lambda>e. if is_Exception e
                           then (None, logger ERROR (''Failed to send webhook: '' @ str_exn e) sv2)
                           else (Some e, sv2))
        in case net req of
             PostRaises e \<Rightarrow> failed e
           | Response status text \<Rightarrow>
               if status \<ge> 400
               then (case text of
                       Inl e \<Rightarrow> failed e
                     | Inr t \<Rightarrow>
                         (None, logger WARNING (''Webhook failed '' @ show_nat status @ '': '' @ t) sv2))
               else (None, logger DEBUG (''Webhook sent to '' @ the url @ '': '' @ event_type) sv2))"

text \<open>
  A network on which a request ends with a response or with an exception that derives
  from \<open>Exception\<close>: the task is not cancelled while it posts.
\<close>

definition no_cancellation :: "('f http_post \<Rightarrow> net_result) \<Rightarrow> bool" where
  "no_cancellation net =
     (\<forall>req. case net req of
              PostRaises e \<Rightarrow> is_Exception e
            | Response status (Inl e) \<Rightarrow> is_Exception e
            | Response status (Inr t) \<Rightarrow> True)"

subsection \<open>\<open>EvolutionService.stop\<close>, \<open>/api/stop\<close>, \<open>/api/start\<close>, \<open>/api/integration/job\<close>\<close>

text \<open>
  \<open>stop\<close> terminates the child, and kills it when it has not exited after five seconds;
  \<open>term_code\<close> is the return code the child ends with. On a child that has exited already
  \<open>terminate\<close> and \<open>wait\<close> do nothing. \<open>self.process\<close> is not reset.
\<close>

definition stop :: "int \<Rightarrow> 'f server \<Rightarrow> 'f server" where
  "stop term_code sv =
     (case process sv of
        None \<Rightarrow> sv
      | Some Running \<Rightarrow> sv\<lparr>process := Some (Exited term_code)\<rparr>
      | Some (Exited return_code) \<Rightarrow> sv)"

definition stop_training :: "int \<Rightarrow> 'f server \<Rightarrow> (string \<times> string) list \<times> 'f server" where
  "stop_training term_code sv =
     (if process sv \<noteq> None
      then ([(''status'', ''stopped'')],
            put ''[SYSTEM] Process terminated by user.'' (stop term_code sv))
      else ([(''status'', ''no_process_running'')], sv))"

datatype http_exception = HTTPException nat string

definition is_running :: "'f server \<Rightarrow> bool" where
  "is_running sv = (case process sv of None \<Rightarrow> False | Some p \<Rightarrow> poll p = None)"

text \<open>
  \<open>start_training\<close> schedules the webhook as a background task and the runner as an
  asyncio task; both run later. \<open>now\<close> is \<open>datetime.now().isoformat()\<close>.
\<close>

definition start_training ::
  "string \<Rightarrow> training_config option \<Rightarrow> 'f server
     \<Rightarrow> (http_exception + (string \<times> string) list) \<times> 'f server" where
  "start_training now config_data sv =
     (if is_running sv then (Inl (HTTPException 400 ''Training already running''), sv)
      else
        let sv1 = (if truthy (get_external_api_url config_data)
                   then sv\<lparr>tasks := tasks sv @
                          [SendEventTask (the (get_external_api_url config_data))
                             (get_external_api_token config_data) ''TRAINING_STARTED''
                             [(''model'', JStr (model_name (the config_data))),
                              (''timestamp'', JStr now)]]\<rparr>
                   else sv);
            sv2 = sv1\<lparr>tasks := tasks sv1 @ [ProcessRunnerTask config_data]\<rparr>
        in (Inr [(''status'', ''started''), (''engine'', ''AgentEvolver Adapter'')], sv2))"

definition trigger_job ::
  "string \<Rightarrow> 'f server \<Rightarrow> (http_exception + (string \<times> string) list) \<times> 'f server" where
  "trigger_job task_id sv =
     (if is_running sv then (Inl (HTTPException 409 ''Busy''), sv)
      else (Inr [(''status'', ''queued''), (''job_id'', task_id)],
            put (''[SYSTEM] External Job Triggered: '' @ task_id) sv))"

subsection \<open>\<open>process_runner\<close>, the task \<open>start_training\<close> creates\<close>

text \<open>
  \<open>runner_loop\<close> is the body of \<open>async for log_line in run_evolution(config_data)\<close> over
  the events the generator yields; it stops at an exception that leaves \<open>send_event\<close>.
  \<open>process_runner\<close> wraps it in \<open>try ... except Exception\<close>. \<open>self.process\<close> is assigned
  when the child has been started, and the child has exited with its return code when
  the generator reaches its end.
\<close>

fun runner_loop ::
  "('f http_post \<Rightarrow> net_result) \<Rightarrow> string \<Rightarrow> training_config option \<Rightarrow> string list
     \<Rightarrow> 'f server \<Rightarrow> exn option \<times> 'f server" where
  "runner_loop net now config_data [] sv = (None, sv)"
| "runner_loop net now config_data (log_line # rest) sv =
     (let sv1 = put log_line sv in
      if contains ''Evolution process completed'' log_line \<and> truthy (get_external_api_url config_data)
      then (case send_event net (get_external_api_url config_data)
                   (get_external_api_token config_data) ''TRAINING_COMPLETE''
                   [(''status'', JStr ''success''), (''timestamp'', JStr now)] sv1 of
              (Some e, sv2) \<Rightarrow> (Some e, sv2)
            | (None, sv2) \<Rightarrow> runner_loop net now config_data rest sv2)
      else runner_loop net now config_data rest sv1)"

definition process_after :: "child \<Rightarrow> exn option \<Rightarrow> popen option \<Rightarrow> popen option" where
  "process_after ch raised previous =
     (case ch of
        SpawnFails e \<Rightarrow> previous
      | Child lines return_code \<Rightarrow>
          (case raised of None \<Rightarrow> Some (Exited return_code) | Some e \<Rightarrow> Some Running))"

definition runner_except :: "exn \<Rightarrow> 'f server \<Rightarrow> exn option \<times> 'f server" where
  "runner_except e sv =
     (if is_Exception e
      then (None, logger ERROR (str_exn e) (put (''[ERROR] Exception in runner: '' @ str_exn e) sv))
      else (Some e, sv))"

definition process_runner ::
  "'f python \<Rightarrow> ('f http_post \<Rightarrow> net_result) \<Rightarrow> string \<Rightarrow> training_config option \<Rightarrow> child
     \<Rightarrow> 'f server \<Rightarrow> exn option \<times> 'f server" where
  "process_runner py net now config_data ch sv =
     (case run_evolution py ch of
        (evs, raised) \<Rightarrow>
          (case runner_loop net now config_data evs
                  (sv\<lparr>process := process_after ch raised (process sv)\<rparr>) of
             (Some e, sv1) \<Rightarrow> runner_except e sv1
           | (None, sv1) \<Rightarrow>
               (case raised of None \<Rightarrow> (None, sv1) | Some e \<Rightarrow> runner_except e sv1)))"

subsection \<open>\<open>/api/integration/telemetry\<close>\<close>

record 'f external_telemetry =
  step :: int
  reward :: 'f
  metrics :: "string \<rightharpoonup> 'f json"
  log_message :: "string option"

definition verify_service_key :: "string option \<Rightarrow> string option \<Rightarrow> http_exception + string option" where
  "verify_service_key expected_key x_service_key =
     (if truthy expected_key \<and> x_service_key \<noteq> expected_key
      then Inl (HTTPException 401 ''Invalid Service Key'')
      else Inr x_service_key)"

definition dict_get :: "(string \<rightharpoonup> 'v) \<Rightarrow> string \<Rightarrow> 'v \<Rightarrow> 'v" where
  "dict_get d k dflt = (case d k of None \<Rightarrow> dflt | Some v \<Rightarrow> v)"

definition telemetry_payload :: "'f python \<Rightarrow> 'f external_telemetry \<Rightarrow> 'f json" where
  "telemetry_payload py data =
     JDict [(''step'', JInt (step data)),
            (''reward'', JFloat (reward data)),
            (''success_rate'', dict_get (metrics data) ''success_rate'' (JFloat (float_lit py ''0.0''))),
            (''loss'', dict_get (metrics data) ''loss'' (JFloat (float_lit py ''0.0'')))]"

text \<open>
  The handler. The integers of the request were read from its JSON body by the same
  interpreter, within its limit on digits, so \<open>json.dumps\<close> writes them back and its text
  is \<open>dumps py\<close> of the payload.
\<close>

definition ingest_telemetry ::
  "'f python \<Rightarrow> 'f external_telemetry \<Rightarrow> 'f server \<Rightarrow> (string \<times> string) list \<times> 'f server" where
  "ingest_telemetry py data sv =
     (let sv1 = (if truthy (log_message data)
                 then put (''[EXTERNAL] '' @ the (log_message data)) sv else sv);
          metric_payload = dumps py (telemetry_payload py data)
      in ([(''status'', ''accepted'')], put (''[METRIC_JSON] '' @ metric_payload) sv1))"

text \<open>The endpoint with its dependency: the handler runs when the key check passes.\<close>

definition telemetry_endpoint ::
  "'f python \<Rightarrow> string option \<Rightarrow> string option \<Rightarrow> 'f external_telemetry \<Rightarrow> 'f server
     \<Rightarrow> (http_exception + (string \<times> string) list) \<times> 'f server" where
  "telemetry_endpoint py expected_key x_service_key data sv =
     (case verify_service_key expected_key x_service_key of
        Inl e \<Rightarrow> (Inl e, sv)
      | Inr k \<Rightarrow> (Inr (fst (ingest_telemetry py data sv)), snd (ingest_telemetry py data sv)))"

subsection \<open>\<open>/ws/logs\<close>: the live log connections\<close>












definition start_state :: "'f server" where
  "start_state =
     \<lparr>process = None, log_queue = [], session = False, posts = [], logged = [], tasks = [],
      sockets = Map.empty, sent = []\<rparr>"

section \<open>The fallback simulator of \<open>agent_evolver_shim.py\<close>\<close>

text \<open>
  The configuration is the YAML document the shim loads; a field is \<open>None\<close> when its
  key is missing, and the simulator then takes its default.
\<close>

record shim_config =
  generations :: "int option"
  population_size :: "int option"
  output_dir :: "string option"

text \<open>
  The lines the simulator prints are kept with the floats they format, so that the floats
  of a run can be named; \<open>render\<close> is the f-string of each \<open>print\<close>. A \<open>print\<close> of a text
  that starts with a newline is two lines, the first one empty.
\<close>

datatype 'f out_line = Text string | AgentScore int int 'f | GenerationSummary int int 'f 'f

fun render :: "'f python \<Rightarrow> 'f out_line \<Rightarrow> string" where
  "render py (Text s) = s"
| "render py (AgentScore i pop_size score) =
     ''Evaluating Agent '' @ show_int i @ ''/'' @ show_int pop_size @ ''... Score: ''
       @ format_4f py score"
| "render py (GenerationSummary g gens avg_reward best_reward) =
     ''Generation ['' @ show_int g @ ''/'' @ show_int gens @ '']: Avg Reward: ''
       @ format_4f py avg_reward @ '', Best Reward: '' @ format_4f py best_reward"

text \<open>
  The loop \<open>for g in range(1, gens + 1)\<close> over the generations still to run, with the
  running \<open>current_best\<close>; \<open>uniform k\<close> is the result of the \<open>k\<close>-th call of
  \<open>random.uniform(-0.1, 0.15)\<close> and \<open>drawn\<close> counts the calls made so far.
\<close>

fun generation_loop ::
  "'f python \<Rightarrow> (nat \<Rightarrow> 'f) \<Rightarrow> int \<Rightarrow> int \<Rightarrow> int list \<Rightarrow> 'f \<Rightarrow> nat \<Rightarrow> 'f out_line list" where
  "generation_loop py uniform gens pop_size [] current_best drawn = []"
| "generation_loop py uniform gens pop_size (g # later) current_best drawn =
     [Text [], Text (''--- Starting Generation '' @ show_int g @ '' ---'')]
     @ map (\<lambda>i. AgentScore i pop_size
                  (fmin py (float_lit py ''0.99'')
                     (fadd py current_best (uniform (drawn + nat (i - 1))))))
         [1 .. pop_size]
     @ (let avg_reward = fmin py (float_lit py ''0.95'') (fadd py current_best (float_lit py ''0.05''));
            best_reward = fmin py (float_lit py ''0.99'') (fadd py current_best (float_lit py ''0.1''))
        in GenerationSummary g gens avg_reward best_reward
           # generation_loop py uniform gens pop_size later best_reward (drawn + nat pop_size))"

definition get_generations :: "shim_config \<Rightarrow> int" where
  "get_generations config = (case generations config of None \<Rightarrow> 5 | Some n \<Rightarrow> n)"

definition get_population_size :: "shim_config \<Rightarrow> int" where
  "get_population_size config = (case population_size config of None \<Rightarrow> 10 | Some n \<Rightarrow> n)"

definition get_output_dir :: "shim_config \<Rightarrow> string" where
  "get_output_dir config = (case output_dir config of None \<Rightarrow> ''outputs'' | Some d \<Rightarrow> d)"

definition simulation_output :: "'f python \<Rightarrow> (nat \<Rightarrow> 'f) \<Rightarrow> shim_config \<Rightarrow> 'f out_line list" where
  "simulation_output py uniform config =
     (let gens = get_generations config; pop_size = get_population_size config
      in [Text ''--- ModelScope AgentEvolver (SIMULATION) ---'',
          Text (''[INFO] Initializing population of '' @ show_int pop_size @ '' agents...'')]
         @ generation_loop py uniform gens pop_size [1 .. gens] (float_lit py ''0.2'') 0
         @ [Text [], Text ''[INFO] Optimization Finished.''])"

text \<open>
  \<open>os.path.join\<close> of a directory and a relative name, and the files of the file system
  as a map from paths to contents. \<open>os.makedirs\<close> raises on the empty path; apart from
  that the file system calls are taken to succeed.
\<close>

definition path_join :: "string \<Rightarrow> string \<Rightarrow> string" where
  "path_join dir name =
     (if dir = [] then name else if last dir = CHR ''/'' then dir @ name else dir @ ''/'' @ name)"

definition run_fallback_simulation ::
  "'f python \<Rightarrow> (nat \<Rightarrow> 'f) \<Rightarrow> shim_config \<Rightarrow> (string \<rightharpoonup> string)
     \<Rightarrow> (string list \<times> exn option) \<times> (string \<rightharpoonup> string)" where
  "run_fallback_simulation py uniform config files =
     (let printed = map (render py) (simulation_output py uniform config);
          dir = get_output_dir config
      in if dir = [] then ((printed, Some (OSError ''No such file or directory'')), files)
         else ((printed @ [''[INFO] Saved best agent to '' @ dir @ ''/best_agent.pt''], None),
               files(path_join dir ''best_agent.pt'' \<mapsto> ''mock_checkpoint_data'')))"

text \<open>The captured groups of the printed lines that the pattern of the pump loop matches.\<close>

definition matched_groups :: "string list \<Rightarrow> string list list" where
  "matched_groups printed = List.map_filter (re_search metric_pattern) printed"

text \<open>A text made of digits and dots only, as \<open>.4f\<close> formats a float that is not negative.\<close>

definition numeral_text :: "string \<Rightarrow> bool" where
  "numeral_text s = (s \<noteq> [] \<and> list_all (in_class DigitOrDot) s)"

section \<open>The template of a generation line, as a language\<close>

text \<open>
  \<open>accepts p s gs\<close>: the text \<open>s\<close> starts with a text of the pattern \<open>p\<close>, read in some
  way, and \<open>gs\<close> are the texts of the groups in that reading. This is the meaning of the
  pattern without any order among the readings. A line matches the template when some
  position of it starts such a text.
\<close>

fun accepts :: "re_item list \<Rightarrow> string \<Rightarrow> string list \<Rightarrow> bool" where
  "accepts [] s gs = (gs = [])"
| "accepts (Lit l # r) s gs = (prefix l s \<and> accepts r (drop (length l) s) gs)"
| "accepts (Star c # r) s gs =
     (\<exists>k \<le> length s. list_all (in_class c) (take k s) \<and> accepts r (drop k s) gs)"
| "accepts (GroupPlus c # r) s gs =
     (case gs of
        [] \<Rightarrow> False
      | g # gs' \<Rightarrow>
          g \<noteq> [] \<and> list_all (in_class c) g \<and> prefix g s \<and> accepts r (drop (length g) s) gs')"

definition matches_template :: "string \<Rightarrow> string list \<Rightarrow> bool" where
  "matches_template line gs = (\<exists>i \<le> length line. accepts metric_pattern (drop i line) gs)"

section \<open>An interpreter to compute with: decimals with four places\<close>

text \<open>
  An instance of the operations on floats in which a float is a number of
  ten-thousandths, and a JSON text is written without escapes.
\<close>

definition fixed_lit :: "string \<Rightarrow> int" where
  "fixed_lit s =
     (let whole = takeWhile (\<lambda>c. c \<noteq> CHR ''.'') s;
          places = take 4 (drop 1 (dropWhile (\<lambda>c. c \<noteq> CHR ''.'') s) @ ''0000'')
      in int (dec_of whole * 10000 + dec_of places))"

definition fixed_4f :: "int \<Rightarrow> string" where
  "fixed_4f x =
     (let n = nat \<bar>x\<bar>
      in (if x < 0 then ''-'' else []) @ show_nat (n div 10000) @ ''.''
         @ [digit_char (n div 1000 mod 10), digit_char (n div 100 mod 10),
            digit_char (n div 10 mod 10), digit_char (n mod 10)])"

fun join_with :: "string \<Rightarrow> string list \<Rightarrow> string" where
  "join_with sep [] = []"
| "join_with sep [x] = x"
| "join_with sep (x # y # ys) = x @ sep @ join_with sep (y # ys)"

fun fixed_dumps :: "int json \<Rightarrow> string" where
  "fixed_dumps JNull = ''null''"
| "fixed_dumps (JBool b) = (if b then ''true'' else ''false'')"
| "fixed_dumps (JInt i) = show_int i"
| "fixed_dumps (JFloat x) = fixed_4f x"
| "fixed_dumps (JStr s) = [CHR 0x22] @ s @ [CHR 0x22]"
| "fixed_dumps (JList xs) = ''['' @ join_with '', '' (map fixed_dumps xs) @ '']''"
| "fixed_dumps (JDict kvs) =
     ''{'' @ join_with '', '' (map (\<lambda>kv. [CHR 0x22] @ fst kv @ [CHR 0x22] @ '': '' @ fixed_dumps (snd kv)) kvs)
       @ ''}''"

definition fixed_python :: "int python" where
  "fixed_python =
     \<lparr>float_lit = fixed_lit, fsub = (\<lambda>a b. a - b), fadd = (\<lambda>a b. a + b), fmin = min,
      format_4f = fixed_4f, dumps = fixed_dumps, int_max_str_digits = 4300\<rparr>"

section \<open>Values the properties are checked on\<close>

text \<open>
  The telemetry request \<open>{step: 40, reward: 0.8, metrics: {success_rate: 0.9, loss: 0.2}}\<close>.
\<close>

definition scenario_telemetry :: "int external_telemetry" where
  "scenario_telemetry =
     \<lparr>step = 40, reward = 8000,
      metrics = [''success_rate'' \<mapsto> JFloat 9000, ''loss'' \<mapsto> JFloat 2000],
      log_message = None\<rparr>"





text \<open>
  For the pump loop: \<open>produced_by py raw m\<close> says that \<open>raw\<close> is the raw-log event of a line
  and \<open>m\<close> the metric event made from the same line; \<open>metrics_paired\<close> says that every metric
  event of a list of events stands right after the raw-log event of its line.
\<close>

definition produced_by :: "'f python \<Rightarrow> string \<Rightarrow> string \<Rightarrow> bool" where
  "produced_by py raw m =
     (\<exists>line groups p j. raw = ''[STDOUT] '' @ line \<and> re_search metric_pattern line = Some groups
        \<and> metric_payload py groups = Inr p \<and> json_dumps py p = Inr j
        \<and> m = ''[METRIC_JSON] '' @ j)"

definition metrics_paired :: "'f python \<Rightarrow> string list \<Rightarrow> bool" where
  "metrics_paired py evs =
     (\<forall>i < length evs. prefix ''[METRIC_JSON]'' (evs ! i) \<longrightarrow>
        0 < i \<and> produced_by py (evs ! (i - 1)) (evs ! i))"

text \<open>A child that prints a banner and one generation line, and the line without its newline.\<close>

definition generation_line :: string where
  "generation_line = ''Generation [3/5]: Avg Reward: 0.45, Best Reward: 0.8''"

definition sample_output :: "(exn + string) list" where
  "sample_output = [Inr ''[SHIM] start\<newline>'', Inr (generation_line @ ''\<newline>'')]"

text \<open>A generation line that ends with a full stop.\<close>

definition dotted_line :: string where
  "dotted_line = ''Generation [1/5]: Avg Reward: 0.45, Best Reward: 0.8.''"

text \<open>
  For the runner: the notice \<open>run_evolution\<close> yields for a child that failed, the request
  of a completion webhook, and the number of completion webhooks a list of events sets
  off.
\<close>

definition failure_notice :: "int \<Rightarrow> string" where
  "failure_notice return_code = ''[ERROR] Evolution process failed with exit code '' @ show_int return_code"

definition completion_request :: "string \<Rightarrow> training_config option \<Rightarrow> 'f http_post" where
  "completion_request now config_data =
     webhook_request (get_external_api_url config_data) (get_external_api_token config_data)
       ''TRAINING_COMPLETE'' [(''status'', JStr ''success''), (''timestamp'', JStr now)]"

definition completions :: "training_config option \<Rightarrow> string list \<Rightarrow> nat" where
  "completions config_data evs =
     (if truthy (get_external_api_url config_data)
      then length (filter (contains ''Evolution process completed'') evs) else 0)"

definition hooked_config :: "training_config option" where
  "hooked_config =
     Some \<lparr>model_name = ''Qwen2.5-7B'', external_api_url = Some ''http://hook'',
           external_api_token = None\<rparr>"

section \<open>A line of the generation template, in the words of the specification\<close>

text \<open>
  A line that carries the template: some text, the marker \<open>Generation\<close>, white space,
  \<open>[g/G]:\<close>, some text, the marker \<open>Avg Reward:\<close>, white space, the average, some text, the
  marker \<open>Best Reward:\<close>, white space, the best reward, some text. \<open>template_values\<close> says
  what the parts are: \<open>g\<close> and \<open>G\<close> are numbers written in digits, the two rewards are
  written in digits and dots, and the texts between the markers have no line break. The
  types \<open>blanks\<close> and \<open>digits\<close> name the parts that are white space and numbers.
\<close>

type_synonym blanks = string

type_synonym digits = string

definition template_line ::
  "string \<Rightarrow> blanks \<Rightarrow> digits \<Rightarrow> digits \<Rightarrow> string \<Rightarrow> blanks \<Rightarrow> digits \<Rightarrow> string \<Rightarrow> blanks
     \<Rightarrow> digits \<Rightarrow> string \<Rightarrow> string" where
  "template_line pre ws1 g G mid1 ws2 avg mid2 ws3 best post =
     pre @ ''Generation'' @ ws1 @ ''['' @ g @ ''/'' @ G @ '']:'' @ mid1 @ ''Avg Reward:'' @ ws2
       @ avg @ mid2 @ ''Best Reward:'' @ ws3 @ best @ post"

definition template_values ::
  "blanks \<Rightarrow> digits \<Rightarrow> digits \<Rightarrow> string \<Rightarrow> blanks \<Rightarrow> digits \<Rightarrow> string \<Rightarrow> blanks \<Rightarrow> digits \<Rightarrow> bool" where
  "template_values ws1 g G mid1 ws2 avg mid2 ws3 best =
     (list_all is_space ws1 \<and> list_all is_space ws2 \<and> list_all is_space ws3
      \<and> g \<noteq> [] \<and> list_all is_digit g \<and> G \<noteq> [] \<and> list_all is_digit G
      \<and> numeral_text avg \<and> numeral_text best
      \<and> CHR 0x0A \<notin> set mid1 \<and> CHR 0x0A \<notin> set mid2)"

text \<open>
  The line can be read in one way only: no \<open>Generation\<close> stands before the one chosen, no
  \<open>Avg Reward:\<close> stands after the average, no \<open>Best Reward:\<close> stands after the best reward,
  and a reward is not followed by one more digit or dot.
\<close>

fun continues_number :: "string \<Rightarrow> bool" where
  "continues_number [] = False"
| "continues_number (c # cs) = in_class DigitOrDot c"

definition read_in_one_way :: "string \<Rightarrow> string \<Rightarrow> blanks \<Rightarrow> digits \<Rightarrow> string \<Rightarrow> bool" where
  "read_in_one_way pre mid2 ws3 best post =
     (\<not> contains ''Generation'' pre
      \<and> \<not> contains ''Avg Reward:'' (mid2 @ ''Best Reward:'' @ ws3 @ best @ post)
      \<and> \<not> contains ''Best Reward:'' post
      \<and> \<not> continues_number mid2 \<and> \<not> continues_number post)"

section \<open>The output of the simulator\<close>

text \<open>The floats a run of the simulator prints, in the order of the lines.\<close>

fun floats_of :: "'f out_line \<Rightarrow> 'f list" where
  "floats_of (Text s) = []"
| "floats_of (AgentScore i pop_size score) = [score]"
| "floats_of (GenerationSummary g gens avg_reward best_reward) = [avg_reward, best_reward]"

definition printed_floats :: "'f python \<Rightarrow> (nat \<Rightarrow> 'f) \<Rightarrow> shim_config \<Rightarrow> 'f list" where
  "printed_floats py uniform config = concat (map floats_of (simulation_output py uniform config))"

text \<open>The line the simulator prints last, after the checkpoint is written.\<close>

definition saved_notice :: "shim_config \<Rightarrow> string" where
  "saved_notice config = ''[INFO] Saved best agent to '' @ get_output_dir config @ ''/best_agent.pt''"

text \<open>
  Three configurations: two generations of one agent; a negative number of generations;
  and no generation, with an output directory whose name reads as a generation line.
\<close>

definition two_cycles :: shim_config where
  "two_cycles = \<lparr>generations = Some 2, population_size = Some 1,
                  output_dir = Some ''workspace/outputs''\<rparr>"

definition no_cycle :: shim_config where
  "no_cycle = \<lparr>generations = Some (- 1), population_size = Some 1,
                output_dir = Some ''workspace/outputs''\<rparr>"

definition line_in_path :: shim_config where
  "line_in_path = \<lparr>generations = Some 0, population_size = Some 1,
                    output_dir = Some ''Generation [1/1]: Avg Reward: 1, Best Reward: 1''\<rparr>"

section \<open>Start and stop\<close>

text \<open>
  Claim C5. While a run is running (the process handle is set and \<open>poll\<close> returns
  \<open>None\<close>), \<open>start_training\<close> fails with the HTTP error 400 "Training already running" and
  \<open>trigger_job\<close> with 409 "Busy", and the state of the server, with its process handle,
  its queue and everything else, is what it was.
\<close>

theorem start_while_running_is_rejected:
  assumes "process sv = Some Running"
  shows "start_training now config_data sv
           = (Inl (HTTPException 400 ''Training already running''), sv)
         \<and> trigger_job task_id sv = (Inl (HTTPException 409 ''Busy''), sv)"
  using assms by (simp add: start_training_def trigger_job_def is_running_def)

theorem start_while_running_is_rejected_witness:
  "process ((start_state :: int server)\<lparr>process := Some Running\<rparr>) = Some Running
   \<and> start_training ''2025-01-01T00:00:00'' None ((start_state :: int server)\<lparr>process := Some Running\<rparr>)
       = (Inl (HTTPException 400 ''Training already running''), start_state\<lparr>process := Some Running\<rparr>)
   \<and> trigger_job ''job-1'' ((start_state :: int server)\<lparr>process := Some Running\<rparr>)
       = (Inl (HTTPException 409 ''Busy''), start_state\<lparr>process := Some Running\<rparr>)"
  using start_while_running_is_rejected
    [of "(start_state :: int server)\<lparr>process := Some Running\<rparr>" "''2025-01-01T00:00:00''" None "''job-1''"]
  by simp

text \<open>
  Claim C3. \<open>stop_training\<close> tests \<open>evolution_service.process\<close>, which \<open>stop\<close> leaves set.
  So on a running child stopped with return code -15 the first call answers "stopped",
  and the second call answers "stopped" once more, not "no_process_running", and puts
  the notice on the queue a second time.
\<close>

theorem second_stop_reports_stopped_again:
  "stop_training (-15) ((start_state :: int server)\<lparr>process := Some Running\<rparr>)
     = ([(''status'', ''stopped'')],
        start_state\<lparr>process := Some (Exited (-15)),
                     log_queue := [''[SYSTEM] Process terminated by user.'']\<rparr>)
   \<and> stop_training (-15)
        (snd (stop_training (-15) ((start_state :: int server)\<lparr>process := Some Running\<rparr>)))
     = ([(''status'', ''stopped'')],
        start_state\<lparr>process := Some (Exited (-15)),
                     log_queue := [''[SYSTEM] Process terminated by user.'',
                                   ''[SYSTEM] Process terminated by user.'']\<rparr>)"
  by (simp add: stop_training_def stop_def put_def start_state_def)

section \<open>Webhooks\<close>

lemma send_event_unset:
  "\<not> truthy url \<Longrightarrow> send_event net url secret event_type payload sv = (None, sv)"
  by (simp add: send_event_def)

lemma no_cancellation_raises:
  assumes "no_cancellation net"
  shows "net req = PostRaises e \<Longrightarrow> is_Exception e"
    and "net req = Response status (Inl e) \<Longrightarrow> is_Exception e"
proof -
  from assms have c: "case net req of PostRaises e \<Rightarrow> is_Exception e
      | Response status (Inl e) \<Rightarrow> is_Exception e | Response status (Inr t) \<Rightarrow> True"
    unfolding no_cancellation_def by blast
  show "net req = PostRaises e \<Longrightarrow> is_Exception e" using c by simp
  show "net req = Response status (Inl e) \<Longrightarrow> is_Exception e" using c by simp
qed

lemma send_event_warning:
  assumes "truthy url"
      and "net (webhook_request url secret event_type payload) = Response status (Inr body)"
      and "400 \<le> status"
  shows "send_event net url secret event_type payload sv =
           (None, sv\<lparr>session := True,
                     posts := posts sv @ [webhook_request url secret event_type payload],
                     logged := logged sv @
                       [(WARNING, ''Webhook failed '' @ show_nat status @ '': '' @ body)]\<rparr>)"
  using assms by (simp add: send_event_def Let_def logger_def basicConfig_level_def)

lemma send_event_unreadable:
  assumes "truthy url"
      and "net (webhook_request url secret event_type payload) = Response status (Inl e)"
      and "400 \<le> status" and "is_Exception e"
  shows "send_event net url secret event_type payload sv =
           (None, sv\<lparr>session := True,
                     posts := posts sv @ [webhook_request url secret event_type payload],
                     logged := logged sv @ [(ERROR, ''Failed to send webhook: '' @ str_exn e)]\<rparr>)"
  using assms by (simp add: send_event_def Let_def logger_def basicConfig_level_def)

lemma send_event_error:
  assumes "truthy url"
      and "net (webhook_request url secret event_type payload) = PostRaises e"
      and "is_Exception e"
  shows "send_event net url secret event_type payload sv =
           (None, sv\<lparr>session := True,
                     posts := posts sv @ [webhook_request url secret event_type payload],
                     logged := logged sv @ [(ERROR, ''Failed to send webhook: '' @ str_exn e)]\<rparr>)"
  using assms by (simp add: send_event_def Let_def logger_def basicConfig_level_def)

lemma send_event_below_400:
  assumes "truthy url"
      and "net (webhook_request url secret event_type payload) = Response status answer"
      and "status < 400"
  shows "send_event net url secret event_type payload sv =
           (None, sv\<lparr>session := True,
                     posts := posts sv @ [webhook_request url secret event_type payload]\<rparr>)"
  using assms by (simp add: send_event_def Let_def logger_def basicConfig_level_def)

lemma send_event_set:
  assumes "truthy url" "no_cancellation net"
  shows "\<exists>entries. send_event net url secret event_type payload sv =
           (None, sv\<lparr>session := True,
                     posts := posts sv @ [webhook_request url secret event_type payload],
                     logged := logged sv @ entries\<rparr>)"
proof (cases "net (webhook_request url secret event_type payload)")
  case (PostRaises e)
  from no_cancellation_raises(1) [OF assms(2) PostRaises] have "is_Exception e" .
  with send_event_error [of url net secret event_type payload e sv] assms(1) PostRaises
  show ?thesis by blast
next
  case (Response status answer)
  show ?thesis
  proof (cases "status < 400")
    case True
    from send_event_below_400 [of url net secret event_type payload status answer sv]
      assms(1) Response True
    have "send_event net url secret event_type payload sv =
           (None, sv\<lparr>session := True,
                     posts := posts sv @ [webhook_request url secret event_type payload],
                     logged := logged sv @ []\<rparr>)"
      by simp
    then show ?thesis by blast
  next
    case False
    then have s: "400 \<le> status" by simp
    show ?thesis
    proof (cases answer)
      case (Inl e)
      from no_cancellation_raises(2) [OF assms(2) Response [unfolded Inl]] have "is_Exception e" .
      with send_event_unreadable [of url net secret event_type payload status e sv]
        assms(1) Response Inl s
      show ?thesis by blast
    next
      case (Inr body)
      from send_event_warning [of url net secret event_type payload status body sv]
        assms(1) Response Inr s
      show ?thesis by blast
    qed
  qed
qed

text \<open>
  Claim C8, as the code has it. With no url, or an empty one, \<open>send_event\<close> returns at
  once: no request, no log record, no exception, the state as it was. With a url it
  attempts one POST and raises nothing, and what it logs depends on the answer. The line
  is drawn at status 400, not at the 2xx range: a response of status 400 or more is
  logged as a warning with the status and the body (as an error when the body cannot be
  read), a failure of the network with an exception is logged as an error, and a
  response of any status below 400 leaves no record at all, since the only record made
  for it is the debug line "Webhook sent", which the level \<open>INFO\<close> drops. In each case the
  state returned is the state given with the session opened, the request added to the
  posts and the record added to the log: the process handle, the queue, the scheduled
  tasks and the messages sent to the live-log clients are untouched. The exceptions are
  those that derive from \<open>Exception\<close>, which \<open>except Exception\<close> catches.
\<close>

theorem webhook_unset_is_noop_and_status_from_400_is_logged:
  "(\<not> truthy url \<longrightarrow> send_event net url secret event_type payload sv = (None, sv))
   \<and> (truthy url \<and> 400 \<le> status
        \<and> net (webhook_request url secret event_type payload) = Response status (Inr body) \<longrightarrow>
        send_event net url secret event_type payload sv =
          (None, sv\<lparr>session := True,
                    posts := posts sv @ [webhook_request url secret event_type payload],
                    logged := logged sv @
                      [(WARNING, ''Webhook failed '' @ show_nat status @ '': '' @ body)]\<rparr>))
   \<and> (truthy url \<and> 400 \<le> status \<and> is_Exception e
        \<and> net (webhook_request url secret event_type payload) = Response status (Inl e) \<longrightarrow>
        send_event net url secret event_type payload sv =
          (None, sv\<lparr>session := True,
                    posts := posts sv @ [webhook_request url secret event_type payload],
                    logged := logged sv @ [(ERROR, ''Failed to send webhook: '' @ str_exn e)]\<rparr>))
   \<and> (truthy url \<and> is_Exception e
        \<and> net (webhook_request url secret event_type payload) = PostRaises e \<longrightarrow>
        send_event net url secret event_type payload sv =
          (None, sv\<lparr>session := True,
                    posts := posts sv @ [webhook_request url secret event_type payload],
                    logged := logged sv @ [(ERROR, ''Failed to send webhook: '' @ str_exn e)]\<rparr>))
   \<and> (truthy url \<and> status < 400
        \<and> net (webhook_request url secret event_type payload) = Response status answer \<longrightarrow>
        send_event net url secret event_type payload sv =
          (None, sv\<lparr>session := True,
                    posts := posts sv @ [webhook_request url secret event_type payload]\<rparr>))"
proof (intro conjI impI)
  assume "\<not> truthy url"
  then show "send_event net url secret event_type payload sv = (None, sv)"
    by (rule send_event_unset)
next
  assume "truthy url \<and> 400 \<le> status
          \<and> net (webhook_request url secret event_type payload) = Response status (Inr body)"
  then show "send_event net url secret event_type payload sv =
          (None, sv\<lparr>session := True,
                    posts := posts sv @ [webhook_request url secret event_type payload],
                    logged := logged sv @
                      [(WARNING, ''Webhook failed '' @ show_nat status @ '': '' @ body)]\<rparr>)"
    using send_event_warning [of url net secret event_type payload status body sv] by blast
next
  assume "truthy url \<and> 400 \<le> status \<and> is_Exception e
          \<and> net (webhook_request url secret event_type payload) = Response status (Inl e)"
  then show "send_event net url secret event_type payload sv =
          (None, sv\<lparr>session := True,
                    posts := posts sv @ [webhook_request url secret event_type payload],
                    logged := logged sv @ [(ERROR, ''Failed to send webhook: '' @ str_exn e)]\<rparr>)"
    using send_event_unreadable [of url net secret event_type payload status e sv] by blast
next
  assume "truthy url \<and> is_Exception e
          \<and> net (webhook_request url secret event_type payload) = PostRaises e"
  then show "send_event net url secret event_type payload sv =
          (None, sv\<lparr>session := True,
                    posts := posts sv @ [webhook_request url secret event_type payload],
                    logged := logged sv @ [(ERROR, ''Failed to send webhook: '' @ str_exn e)]\<rparr>)"
    using send_event_error [of url net secret event_type payload e sv] by blast
next
  assume "truthy url \<and> status < 400
          \<and> net (webhook_request url secret event_type payload) = Response status answer"
  then show "send_event net url secret event_type payload sv =
          (None, sv\<lparr>session := True,
                    posts := posts sv @ [webhook_request url secret event_type payload]\<rparr>)"
    using send_event_below_400 [of url net secret event_type payload status answer sv] by blast
qed

lemma show_nat_500: "show_nat 500 = ''500''"
  by code_simp

theorem webhook_unset_is_noop_and_status_from_400_is_logged_witness:
  "\<not> truthy None
   \<and> send_event (\<lambda>req. Response 500 (Inr ''down'')) None None ''TRAINING_COMPLETE'' []
        (start_state :: int server)
       = (None, start_state)
   \<and> truthy (Some ''http://hook'') \<and> (400 :: nat) \<le> 500
   \<and> send_event (\<lambda>req. Response 500 (Inr ''down'')) (Some ''http://hook'') None
        ''TRAINING_COMPLETE'' [] (start_state :: int server)
       = (None, start_state\<lparr>session := True,
                  posts := [webhook_request (Some ''http://hook'') None ''TRAINING_COMPLETE'' []],
                  logged := [(WARNING, ''Webhook failed 500: down'')]\<rparr>)
   \<and> is_Exception (ClientError ''Cannot connect to host'')
   \<and> send_event (\<lambda>req. PostRaises (ClientError ''Cannot connect to host'')) (Some ''http://hook'') None
        ''TRAINING_COMPLETE'' [] (start_state :: int server)
       = (None, start_state\<lparr>session := True,
                  posts := [webhook_request (Some ''http://hook'') None ''TRAINING_COMPLETE'' []],
                  logged := [(ERROR, ''Failed to send webhook: Cannot connect to host'')]\<rparr>)
   \<and> (200 :: nat) < 400
   \<and> send_event (\<lambda>req. Response 200 (Inr ''ok'')) (Some ''http://hook'') None
        ''TRAINING_COMPLETE'' [] (start_state :: int server)
       = (None, start_state\<lparr>session := True,
                  posts := [webhook_request (Some ''http://hook'') None ''TRAINING_COMPLETE'' []]\<rparr>)"
  using webhook_unset_is_noop_and_status_from_400_is_logged
          [of None "\<lambda>req. Response 500 (Inr ''down'')" None "''TRAINING_COMPLETE''" "[]"
              "start_state :: int server" 500 "''down''" "ClientError ''Cannot connect to host''" "Inr ''down''"]
        webhook_unset_is_noop_and_status_from_400_is_logged
          [of "Some ''http://hook''" "\<lambda>req. Response 500 (Inr ''down'')" None "''TRAINING_COMPLETE''" "[]"
              "start_state :: int server" 500 "''down''" "ClientError ''Cannot connect to host''" "Inr ''down''"]
        webhook_unset_is_noop_and_status_from_400_is_logged
          [of "Some ''http://hook''" "\<lambda>req. PostRaises (ClientError ''Cannot connect to host'')" None
              "''TRAINING_COMPLETE''" "[]"
              "start_state :: int server" 500 "''down''" "ClientError ''Cannot connect to host''" "Inr ''down''"]
        webhook_unset_is_noop_and_status_from_400_is_logged
          [of "Some ''http://hook''" "\<lambda>req. Response 200 (Inr ''ok'')" None "''TRAINING_COMPLETE''" "[]"
              "start_state :: int server" 200 "''down''" "ClientError ''Cannot connect to host''" "Inr ''ok''"]
  by (simp add: truthy_def show_nat_500 start_state_def)

text \<open>
  The claim as written fails on the responses that are not 2xx and are below 400. The
  answer 304 to a completion webhook is not logged as a failure: no record is written,
  and the only record made is the debug line that says the webhook was sent.
\<close>

theorem response_304_is_not_logged:
  "send_event (\<lambda>req. Response 304 (Inr [])) (Some ''http://hook'') None
        ''TRAINING_COMPLETE'' [] (start_state :: int server)
       = (None, start_state\<lparr>session := True,
                  posts := [webhook_request (Some ''http://hook'') None ''TRAINING_COMPLETE'' []]\<rparr>)
   \<and> logged (snd (send_event (\<lambda>req. Response 304 (Inr [])) (Some ''http://hook'') None
                     ''TRAINING_COMPLETE'' [] (start_state :: int server))) = []"
  by (simp add: send_event_def Let_def logger_def basicConfig_level_def truthy_def start_state_def)

section \<open>Computing the decimal texts\<close>

lemma digit_char_table:
  "digit_char 0 = CHR ''0''" "digit_char 1 = CHR ''1''" "digit_char 2 = CHR ''2''"
  "digit_char 3 = CHR ''3''" "digit_char 4 = CHR ''4''" "digit_char 5 = CHR ''5''"
  "digit_char 6 = CHR ''6''" "digit_char 7 = CHR ''7''" "digit_char 8 = CHR ''8''"
  "digit_char 9 = CHR ''9''"
  by code_simp+

section \<open>Telemetry\<close>

text \<open>
  Claim C10, as the code has it. An accepted telemetry request (the key check passes)
  puts one metric event on the queue, the JSON text of a dictionary with the four keys
  \<open>step\<close>, \<open>reward\<close>, \<open>success_rate\<close> and \<open>loss\<close>: \<open>step\<close> and \<open>reward\<close> are the request's,
  \<open>success_rate\<close> and \<open>loss\<close> are the entries of its \<open>metrics\<close>, or 0.0 when the key is
  missing. Before it, a raw-log event \<open>[EXTERNAL] ...\<close> is put exactly when \<open>log_message\<close>
  is present and not empty. Nothing else changes.
\<close>

theorem telemetry_publishes_one_metric:
  assumes "verify_service_key expected_key x_service_key = Inr k"
  shows "telemetry_endpoint py expected_key x_service_key data sv =
           (Inr [(''status'', ''accepted'')],
            sv\<lparr>log_queue := log_queue sv
                   @ (if log_message data = None \<or> log_message data = Some []
                      then [] else [''[EXTERNAL] '' @ the (log_message data)])
                   @ [''[METRIC_JSON] '' @ dumps py
                        (JDict [(''step'', JInt (step data)),
                                (''reward'', JFloat (reward data)),
                                (''success_rate'',
                                   (case metrics data ''success_rate'' of
                                      None \<Rightarrow> JFloat (float_lit py ''0.0'') | Some v \<Rightarrow> v)),
                                (''loss'',
                                   (case metrics data ''loss'' of
                                      None \<Rightarrow> JFloat (float_lit py ''0.0'') | Some v \<Rightarrow> v))])]\<rparr>)"
proof -
  have q: "log_queue (snd (ingest_telemetry py data sv)) = log_queue sv
                   @ (if log_message data = None \<or> log_message data = Some []
                      then [] else [''[EXTERNAL] '' @ the (log_message data)])
                   @ [''[METRIC_JSON] '' @ dumps py (telemetry_payload py data)]"
    by (cases "log_message data") (simp_all add: ingest_telemetry_def put_def truthy_def Let_def)
  have r: "snd (ingest_telemetry py data sv)
             = sv\<lparr>log_queue := log_queue (snd (ingest_telemetry py data sv))\<rparr>"
    by (simp add: ingest_telemetry_def put_def Let_def)
  have f: "fst (ingest_telemetry py data sv) = [(''status'', ''accepted'')]"
    by (simp add: ingest_telemetry_def Let_def)
  have p: "telemetry_payload py data =
             JDict [(''step'', JInt (step data)),
                    (''reward'', JFloat (reward data)),
                    (''success_rate'',
                       (case metrics data ''success_rate'' of
                          None \<Rightarrow> JFloat (float_lit py ''0.0'') | Some v \<Rightarrow> v)),
                    (''loss'',
                       (case metrics data ''loss'' of
                          None \<Rightarrow> JFloat (float_lit py ''0.0'') | Some v \<Rightarrow> v))]"
    by (simp add: telemetry_payload_def dict_get_def)
  have "telemetry_endpoint py expected_key x_service_key data sv
          = (Inr (fst (ingest_telemetry py data sv)), snd (ingest_telemetry py data sv))"
    using assms by (simp add: telemetry_endpoint_def)
  also have "\<dots> = (Inr [(''status'', ''accepted'')],
                     sv\<lparr>log_queue := log_queue (snd (ingest_telemetry py data sv))\<rparr>)"
    using r f by simp
  finally show ?thesis unfolding q p .
qed

lemma scenario_dumps:
  "fixed_dumps (JDict [(''step'', JInt 40), (''reward'', JFloat 8000),
                       (''success_rate'', JFloat 9000), (''loss'', JFloat 2000)])
     = ''{'' @ [CHR 0x22] @ ''step'' @ [CHR 0x22] @ '': 40, '' @ [CHR 0x22] @ ''reward'' @ [CHR 0x22] @ '': 0.8000, ''
        @ [CHR 0x22] @ ''success_rate'' @ [CHR 0x22] @ '': 0.9000, '' @ [CHR 0x22] @ ''loss'' @ [CHR 0x22] @ '': 0.2000}''"
  by (simp add: fixed_4f_def show_int_def show_nat.simps digit_char_table Let_def)

theorem telemetry_publishes_one_metric_witness:
  "verify_service_key (Some ''key'') (Some ''key'') = Inr (Some ''key'')
   \<and> telemetry_endpoint fixed_python (Some ''key'') (Some ''key'') scenario_telemetry start_state
       = (Inr [(''status'', ''accepted'')],
          start_state\<lparr>log_queue :=
            [''[METRIC_JSON] {'' @ [CHR 0x22] @ ''step'' @ [CHR 0x22] @ '': 40, ''
               @ [CHR 0x22] @ ''reward'' @ [CHR 0x22] @ '': 0.8000, ''
               @ [CHR 0x22] @ ''success_rate'' @ [CHR 0x22] @ '': 0.9000, ''
               @ [CHR 0x22] @ ''loss'' @ [CHR 0x22] @ '': 0.2000}'']\<rparr>)"
  using telemetry_publishes_one_metric
          [of "Some ''key''" "Some ''key''" "Some ''key''" fixed_python scenario_telemetry start_state]
        scenario_dumps
  by (simp add: verify_service_key_def truthy_def scenario_telemetry_def fixed_python_def start_state_def)

text \<open>
  The claim as written fails on a request whose \<open>log_message\<close> is present and empty: only
  the metric event is published.
\<close>

theorem empty_log_message_is_not_published:
  "log_message (scenario_telemetry\<lparr>log_message := Some []\<rparr>) \<noteq> None
   \<and> log_queue (snd (ingest_telemetry fixed_python (scenario_telemetry\<lparr>log_message := Some []\<rparr>) start_state))
       = [''[METRIC_JSON] {'' @ [CHR 0x22] @ ''step'' @ [CHR 0x22] @ '': 40, ''
               @ [CHR 0x22] @ ''reward'' @ [CHR 0x22] @ '': 0.8000, ''
               @ [CHR 0x22] @ ''success_rate'' @ [CHR 0x22] @ '': 0.9000, ''
               @ [CHR 0x22] @ ''loss'' @ [CHR 0x22] @ '': 0.2000}'']"
  using scenario_dumps
  by (simp add: ingest_telemetry_def telemetry_payload_def dict_get_def put_def truthy_def
        scenario_telemetry_def fixed_python_def start_state_def)

section \<open>The log queue and the live-log connections\<close>














section \<open>The pump loop\<close>

lemma not_metric_stdout: "\<not> prefix ''[METRIC_JSON]'' (''[STDOUT] '' @ line)"
  by simp

lemma metrics_paired_Nil: "metrics_paired py []"
  by (simp add: metrics_paired_def)

lemma metrics_paired_raw:
  assumes "metrics_paired py evs"
  shows "metrics_paired py ((''[STDOUT] '' @ line) # evs)"
  unfolding metrics_paired_def
proof (intro allI impI)
  fix i
  assume i: "i < length ((''[STDOUT] '' @ line) # evs)"
    and m: "prefix ''[METRIC_JSON]'' (((''[STDOUT] '' @ line) # evs) ! i)"
  from m obtain j where j: "i = Suc j" by (cases i) simp_all
  with i m have "j < length evs" "prefix ''[METRIC_JSON]'' (evs ! j)" by simp_all
  with assms have "0 < j \<and> produced_by py (evs ! (j - 1)) (evs ! j)"
    by (simp add: metrics_paired_def)
  then show "0 < i \<and> produced_by py (((''[STDOUT] '' @ line) # evs) ! (i - 1))
                        (((''[STDOUT] '' @ line) # evs) ! i)"
    using j by (cases j) simp_all
qed

lemma metrics_paired_pair:
  assumes "metrics_paired py evs" "produced_by py (''[STDOUT] '' @ line) m"
  shows "metrics_paired py ((''[STDOUT] '' @ line) # m # evs)"
  unfolding metrics_paired_def
proof (intro allI impI)
  fix i
  assume i: "i < length ((''[STDOUT] '' @ line) # m # evs)"
    and p: "prefix ''[METRIC_JSON]'' (((''[STDOUT] '' @ line) # m # evs) ! i)"
  from p obtain j where j: "i = Suc j" by (cases i) simp_all
  show "0 < i \<and> produced_by py (((''[STDOUT] '' @ line) # m # evs) ! (i - 1))
                   (((''[STDOUT] '' @ line) # m # evs) ! i)"
  proof (cases j)
    case 0
    with j assms(2) show ?thesis by simp
  next
    case (Suc k)
    with i j p have "k < length evs" "prefix ''[METRIC_JSON]'' (evs ! k)" by simp_all
    with assms(1) have "0 < k \<and> produced_by py (evs ! (k - 1)) (evs ! k)"
      by (simp add: metrics_paired_def)
    then show ?thesis using j Suc by (cases k) simp_all
  qed
qed

lemma metrics_paired_append:
  assumes "metrics_paired py evs" "\<forall>e \<in> set tail. \<not> prefix ''[METRIC_JSON]'' e"
  shows "metrics_paired py (evs @ tail)"
  unfolding metrics_paired_def
proof (intro allI impI)
  fix i
  assume i: "i < length (evs @ tail)" and p: "prefix ''[METRIC_JSON]'' ((evs @ tail) ! i)"
  have "i < length evs"
  proof (rule ccontr)
    assume "\<not> i < length evs"
    with i p have "(evs @ tail) ! i \<in> set tail" by (simp add: nth_append)
    with assms(2) p show False by blast
  qed
  with p assms(1) have "0 < i \<and> produced_by py (evs ! (i - 1)) (evs ! i)"
    by (simp add: metrics_paired_def nth_append)
  with \<open>i < length evs\<close> show "0 < i \<and> produced_by py ((evs @ tail) ! (i - 1)) ((evs @ tail) ! i)"
    by (auto simp: nth_append)
qed

lemma stream_output_paired: "metrics_paired py (fst (stream_output py lines))"
proof (induction lines)
  case Nil
  show ?case by (simp add: metrics_paired_Nil)
next
  case (Cons line rest)
  show ?case
  proof (cases line)
    case (Inl e)
    then show ?thesis by (simp add: metrics_paired_Nil)
  next
    case (Inr body)
    show ?thesis
    proof (cases "re_search metric_pattern (strip body)")
      case None
      with Inr show ?thesis
        using metrics_paired_raw [OF Cons.IH, of "strip body"] by (simp add: yield_def)
    next
      case (Some groups)
      show ?thesis
      proof (cases "metric_payload py groups")
        case (Inl e)
        with Inr Some show ?thesis
          using metrics_paired_raw [OF metrics_paired_Nil, of py "strip body"] by simp
      next
        case p: (Inr p)
        show ?thesis
        proof (cases "json_dumps py p")
          case (Inl e)
          with Inr Some p show ?thesis
            using metrics_paired_raw [OF metrics_paired_Nil, of py "strip body"] by simp
        next
          case j: (Inr j)
          have "produced_by py (''[STDOUT] '' @ strip body) (''[METRIC_JSON] '' @ j)"
            using Some p j unfolding produced_by_def by blast
          from metrics_paired_pair [OF Cons.IH this] show ?thesis
            using \<open>line = Inr body\<close> Some p j by (simp add: yield_def)
        qed
      qed
    qed
  qed
qed

lemma run_evolution_paired: "metrics_paired py (fst (run_evolution py ch))"
proof (cases ch)
  case (SpawnFails e)
  then show ?thesis by (simp add: run_evolution_def metrics_paired_Nil)
next
  case (Child lines return_code)
  obtain evs raised where s: "stream_output py lines = (evs, raised)" by (cases "stream_output py lines")
  with stream_output_paired [of py lines] have p: "metrics_paired py evs" by simp
  show ?thesis
  proof (cases raised)
    case (Some e)
    with Child s p show ?thesis by (simp add: run_evolution_def)
  next
    case None
    with Child s show ?thesis
      by (auto simp: run_evolution_def intro!: metrics_paired_append [OF p])
  qed
qed

text \<open>
  The order of a pair. In the events \<open>run_evolution\<close> yields, in the order it yields them,
  every metric event (an event that starts with \<open>[METRIC_JSON]\<close>) stands right after the
  raw-log event \<open>[STDOUT] line\<close> of the line that produced it: the pattern matches that
  line, and the metric event is the JSON text of the payload made from its groups. This
  holds of every run, also of one that an exception ends.
\<close>

lemma metric_event_follows_its_raw_log:
  assumes "i < length (fst (run_evolution py ch))"
      and "prefix ''[METRIC_JSON]'' (fst (run_evolution py ch) ! i)"
  shows "0 < i \<and>
         (\<exists>line groups p j.
            fst (run_evolution py ch) ! (i - 1) = ''[STDOUT] '' @ line
            \<and> re_search metric_pattern line = Some groups
            \<and> metric_payload py groups = Inr p
            \<and> json_dumps py p = Inr j
            \<and> fst (run_evolution py ch) ! i = ''[METRIC_JSON] '' @ j)"
  using run_evolution_paired [of py ch] assms
  unfolding metrics_paired_def produced_by_def by blast

text \<open>
  The events of the lines read. As long as no exception ends the loop, what it yields
  for the lines read so far is followed by what it yields for the lines read next; and
  one line yields its raw log, followed by its metric event when the pattern matches
  and the payload can be made and written.
\<close>

lemma stream_output_append:
  assumes "snd (stream_output py lines) = None"
  shows "stream_output py (lines @ later)
           = (fst (stream_output py lines) @ fst (stream_output py later),
              snd (stream_output py later))"
  using assms
proof (induction lines)
  case Nil
  show ?case by simp
next
  case (Cons line rest)
  show ?case
  proof (cases line)
    case (Inl e)
    with Cons.prems show ?thesis by simp
  next
    case (Inr body)
    show ?thesis
    proof (cases "re_search metric_pattern (strip body)")
      case None
      with Inr Cons show ?thesis by (simp add: yield_def)
    next
      case (Some groups)
      show ?thesis
      proof (cases "metric_payload py groups")
        case (Inl e)
        with Inr Some Cons.prems show ?thesis by simp
      next
        case p: (Inr p)
        show ?thesis
        proof (cases "json_dumps py p")
          case (Inl e)
          with Inr Some p Cons.prems show ?thesis by simp
        next
          case j: (Inr j)
          with Inr Some p Cons show ?thesis by (simp add: yield_def)
        qed
      qed
    qed
  qed
qed

lemma stream_output_unmatched_line:
  assumes "re_search metric_pattern (strip body) = None"
  shows "stream_output py [Inr body] = ([''[STDOUT] '' @ strip body], None)"
  using assms by (simp add: yield_def)

lemma stream_output_matched_line:
  assumes "re_search metric_pattern (strip body) = Some [g, G, avg, best]"
      and "py_int py g = Inr n" and "py_float py avg = Inr a" and "py_float py best = Inr b"
      and "json_dumps py (JDict [(''step'', JInt (n * 10)), (''reward'', JFloat a),
                                 (''success_rate'', JFloat b),
                                 (''loss'', JFloat (fsub py (float_lit py ''1.0'') a))]) = Inr j"
  shows "metric_payload py [g, G, avg, best]
           = Inr (JDict [(''step'', JInt (n * 10)), (''reward'', JFloat a),
                         (''success_rate'', JFloat b),
                         (''loss'', JFloat (fsub py (float_lit py ''1.0'') a))])"
    and "stream_output py [Inr body] = ([''[STDOUT] '' @ strip body, ''[METRIC_JSON] '' @ j], None)"
    and "n = int (dec_of g)" and "a = float_lit py avg" and "b = float_lit py best"
proof -
  show p: "metric_payload py [g, G, avg, best]
             = Inr (JDict [(''step'', JInt (n * 10)), (''reward'', JFloat a),
                           (''success_rate'', JFloat b),
                           (''loss'', JFloat (fsub py (float_lit py ''1.0'') a))])"
    using assms(2-4) by (simp add: metric_payload_def)
  show "stream_output py [Inr body] = ([''[STDOUT] '' @ strip body, ''[METRIC_JSON] '' @ j], None)"
    using assms(1,5) p by (simp add: yield_def)
  show "n = int (dec_of g)"
    using assms(2) by (simp add: py_int_def split: if_splits)
  show "a = float_lit py avg" and "b = float_lit py best"
    using assms(3,4) by (simp_all add: py_float_def split: if_splits)
qed

text \<open>A child that prints a banner and one generation line, as the simulator writes them.\<close>

lemma strip_banner: "strip ''[SHIM] start\<newline>'' = ''[SHIM] start''"
  by code_simp

lemma search_banner: "re_search metric_pattern ''[SHIM] start'' = None"
  by code_simp

lemma strip_generation_line: "strip (generation_line @ ''\<newline>'') = generation_line"
  by code_simp

lemma search_generation_line:
  "re_search metric_pattern generation_line = Some [''3'', ''5'', ''0.45'', ''0.8'']"
  by code_simp

lemma int_of_3: "py_int fixed_python ''3'' = Inr 3"
  by (simp add: py_int_def is_digit_def dec_of_def digit_val_def fixed_python_def)

lemma float_of_045: "py_float fixed_python ''0.45'' = Inr 4500"
  by (simp add: py_float_def float_numeral_def is_digit_def fixed_python_def fixed_lit_def
        dec_of_def digit_val_def)

lemma float_of_08: "py_float fixed_python ''0.8'' = Inr 8000"
  by (simp add: py_float_def float_numeral_def is_digit_def fixed_python_def fixed_lit_def
        dec_of_def digit_val_def)

lemma one_point_zero: "float_lit fixed_python ''1.0'' = 10000"
  by (simp add: fixed_python_def fixed_lit_def dec_of_def digit_val_def)

lemma sample_payload:
  "metric_payload fixed_python [''3'', ''5'', ''0.45'', ''0.8'']
     = Inr (JDict [(''step'', JInt 30), (''reward'', JFloat 4500),
                   (''success_rate'', JFloat 8000), (''loss'', JFloat 5500)])"
  by (simp add: metric_payload_def int_of_3 float_of_045 float_of_08 one_point_zero)
     (simp add: fixed_python_def)

lemma show_nat_30: "show_nat 30 = ''30''"
  by code_simp

lemma sample_dumps:
  "json_dumps fixed_python (JDict [(''step'', JInt 30), (''reward'', JFloat 4500),
                   (''success_rate'', JFloat 8000), (''loss'', JFloat 5500)])
     = Inr (fixed_dumps (JDict [(''step'', JInt 30), (''reward'', JFloat 4500),
                   (''success_rate'', JFloat 8000), (''loss'', JFloat 5500)]))"
  by (simp add: json_dumps_def int_repr_allowed_def show_nat_30) (simp add: fixed_python_def)

lemma sample_stream:
  "stream_output fixed_python sample_output
     = ([''[STDOUT] [SHIM] start'', ''[STDOUT] '' @ generation_line,
         ''[METRIC_JSON] '' @ fixed_dumps (JDict [(''step'', JInt 30), (''reward'', JFloat 4500),
                   (''success_rate'', JFloat 8000), (''loss'', JFloat 5500)])], None)"
  by (simp add: sample_output_def strip_banner search_banner strip_generation_line
        search_generation_line sample_payload sample_dumps yield_def)

lemma sample_run:
  "fst (run_evolution fixed_python (Child sample_output 0))
     = [''[STDOUT] [SHIM] start'', ''[STDOUT] '' @ generation_line,
        ''[METRIC_JSON] '' @ fixed_dumps (JDict [(''step'', JInt 30), (''reward'', JFloat 4500),
                   (''success_rate'', JFloat 8000), (''loss'', JFloat 5500)]),
        ''[SYSTEM] Evolution process completed successfully.'',
        ''[SYSTEM] Best agent saved to workspace/outputs/best_agent.pt'']"
  by (simp add: run_evolution_def sample_stream)

text \<open>
  A generation line that ends with a full stop: the pattern matches it, and its last
  group takes the full stop with the number.
\<close>

lemma strip_dotted_line: "strip (dotted_line @ ''\<newline>'') = dotted_line"
  by code_simp

lemma search_dotted_line:
  "re_search metric_pattern dotted_line = Some [''1'', ''5'', ''0.45'', ''0.8.'']"
  by code_simp

lemma int_of_1: "py_int py ''1'' = Inr 1"
  by (auto simp: py_int_def is_digit_def dec_of_def digit_val_def)

lemma float_of_045_any: "py_float py ''0.45'' = Inr (float_lit py ''0.45'')"
  by (simp add: py_float_def float_numeral_def is_digit_def)

lemma float_of_dotted:
  "py_float py ''0.8.''
     = Inl (ValueError (''could not convert string to float: '' @ [CHR 0x27] @ ''0.8.'' @ [CHR 0x27]))"
  by (simp add: py_float_def float_numeral_def is_digit_def)

lemma dotted_payload:
  "metric_payload py [''1'', ''5'', ''0.45'', ''0.8.'']
     = Inl (ValueError (''could not convert string to float: '' @ [CHR 0x27] @ ''0.8.'' @ [CHR 0x27]))"
  by (simp add: metric_payload_def int_of_1 float_of_045_any float_of_dotted)

lemma dotted_stream:
  "stream_output py (Inr (dotted_line @ ''\<newline>'') # later)
     = ([''[STDOUT] '' @ dotted_line],
        Some (ValueError (''could not convert string to float: '' @ [CHR 0x27] @ ''0.8.'' @ [CHR 0x27])))"
  by (simp add: strip_dotted_line search_dotted_line dotted_payload)

text \<open>
  Claim C6. The order of a pair holds (\<open>metric_event_follows_its_raw_log\<close>), but the loop
  does not publish a metric event for every line that matches. The child prints
  \<open>Generation [1/5]: Avg Reward: 0.45, Best Reward: 0.8.\<close> and then \<open>[SHIM] done\<close>, and
  exits with code 0. The pattern matches the first line; its raw log is published, and
  then \<open>float('0.8.')\<close> raises \<open>ValueError\<close> inside the generator: no metric event follows
  the raw log, the second line is never read, and no closing line is yielded.
\<close>

theorem matched_line_is_published_without_its_metric:
  "re_search metric_pattern (strip (dotted_line @ ''\<newline>'')) = Some [''1'', ''5'', ''0.45'', ''0.8.'']
   \<and> run_evolution py (Child [Inr (dotted_line @ ''\<newline>''), Inr ''[SHIM] done\<newline>''] 0)
       = ([''[STDOUT] Generation [1/5]: Avg Reward: 0.45, Best Reward: 0.8.''],
          Some (ValueError (''could not convert string to float: '' @ [CHR 0x27] @ ''0.8.'' @ [CHR 0x27])))"
  by (simp add: run_evolution_def dotted_stream strip_dotted_line search_dotted_line
        del: stream_output.simps)
     (simp add: dotted_line_def)

text \<open>
  Claim C7. When the conversions succeed the payload is as the claim has it
  (\<open>stream_output_matched_line\<close>: \<open>step\<close> is ten times the number \<open>g\<close> denotes, \<open>reward\<close> and
  \<open>success_rate\<close> are the floats \<open>avg\<close> and \<open>best\<close> denote, \<open>loss\<close> is \<open>1.0 - reward\<close>). But the
  groups of a matched line need not convert: \<open>[\d\.]+\<close> captures digits and dots, and
  \<open>float\<close> refuses a numeral with a dot at its end or with two dots. For the line
  \<open>Generation [1/5]: Avg Reward: 0.45, Best Reward: 0.8.\<close>, with the values 1, 5, 0.45 and
  0.8, the groups are \<open>1\<close>, \<open>5\<close>, \<open>0.45\<close> and \<open>0.8.\<close>; no payload is made, and the loop ends
  with the \<open>ValueError\<close> of \<open>float('0.8.')\<close> after the raw log.
\<close>

theorem matched_line_with_full_stop_has_no_payload:
  "re_search metric_pattern (strip (dotted_line @ ''\<newline>'')) = Some [''1'', ''5'', ''0.45'', ''0.8.'']
   \<and> py_float py ''0.8.''
       = Inl (ValueError (''could not convert string to float: '' @ [CHR 0x27] @ ''0.8.'' @ [CHR 0x27]))
   \<and> metric_payload py [''1'', ''5'', ''0.45'', ''0.8.'']
       = Inl (ValueError (''could not convert string to float: '' @ [CHR 0x27] @ ''0.8.'' @ [CHR 0x27]))
   \<and> stream_output py [Inr (dotted_line @ ''\<newline>'')]
       = ([''[STDOUT] Generation [1/5]: Avg Reward: 0.45, Best Reward: 0.8.''],
          Some (ValueError (''could not convert string to float: '' @ [CHR 0x27] @ ''0.8.'' @ [CHR 0x27])))"
  by (simp add: dotted_stream strip_dotted_line search_dotted_line dotted_payload float_of_dotted
        del: stream_output.simps)
     (simp add: dotted_line_def)

section \<open>The runner and a child that fails\<close>

lemma runner_loop_effect:
  assumes "no_cancellation net"
  shows "fst (runner_loop net now config_data evs sv) = None
         \<and> log_queue (snd (runner_loop net now config_data evs sv)) = log_queue sv @ evs
         \<and> process (snd (runner_loop net now config_data evs sv)) = process sv
         \<and> posts (snd (runner_loop net now config_data evs sv))
             = posts sv @ replicate (completions config_data evs) (completion_request now config_data)"
proof (induction evs arbitrary: sv)
  case Nil
  show ?case by (simp add: completions_def)
next
  case (Cons ev evs)
  show ?case
  proof (cases "contains ''Evolution process completed'' ev \<and> truthy (get_external_api_url config_data)")
    case False
    then have "runner_loop net now config_data (ev # evs) sv
                 = runner_loop net now config_data evs (put ev sv)"
      by (subst runner_loop.simps) (simp only: Let_def if_False)
    moreover from False have "completions config_data (ev # evs) = completions config_data evs"
      by (auto simp: completions_def)
    ultimately show ?thesis using Cons [of "put ev sv"] by (simp add: put_def)
  next
    case True
    from True assms send_event_set [of "get_external_api_url config_data" net
           "get_external_api_token config_data" "''TRAINING_COMPLETE''"
           "[(''status'', JStr ''success''), (''timestamp'', JStr now)]" "put ev sv"]
    obtain entries where
      "send_event net (get_external_api_url config_data) (get_external_api_token config_data)
            ''TRAINING_COMPLETE'' [(''status'', JStr ''success''), (''timestamp'', JStr now)] (put ev sv)
          = (None, (put ev sv)\<lparr>session := True,
                   posts := posts (put ev sv) @ [completion_request now config_data],
                   logged := logged (put ev sv) @ entries\<rparr>)"
      unfolding completion_request_def by blast
    define sv2 where "sv2 = (put ev sv)\<lparr>session := True,
                   posts := posts (put ev sv) @ [completion_request now config_data],
                   logged := logged (put ev sv) @ entries\<rparr>"
    note s = \<open>send_event net (get_external_api_url config_data) (get_external_api_token config_data)
            ''TRAINING_COMPLETE'' [(''status'', JStr ''success''), (''timestamp'', JStr now)] (put ev sv)
          = (None, (put ev sv)\<lparr>session := True,
                   posts := posts (put ev sv) @ [completion_request now config_data],
                   logged := logged (put ev sv) @ entries\<rparr>)\<close> [folded sv2_def]
    from s True have "runner_loop net now config_data (ev # evs) sv
                      = runner_loop net now config_data evs sv2"
      by (simp add: Let_def)
    moreover from True have "completions config_data (ev # evs) = Suc (completions config_data evs)"
      by (simp add: completions_def)
    ultimately show ?thesis
      using Cons [of sv2] by (simp add: sv2_def put_def replicate_append_same)
  qed
qed

lemma show_nat_digits: "show_nat n \<noteq> [] \<and> list_all is_digit (show_nat n)"
proof (induction n rule: show_nat.induct)
  case (1 n)
  have d: "is_digit (digit_char k)" if "k < 10" for k
  proof -
    from that have "k \<in> {0, 1, 2, 3, 4, 5, 6, 7, 8, 9}" by auto
    moreover have "digit_char (Suc 0) = CHR ''1''" using digit_char_table(2) by simp
    ultimately show ?thesis by (auto simp: digit_char_table is_digit_def)
  qed
  show ?case
  proof (cases "n < 10")
    case True
    then show ?thesis by (subst show_nat.simps, subst (2) show_nat.simps) (simp add: d)
  next
    case False
    with 1 have "show_nat (n div 10) \<noteq> [] \<and> list_all is_digit (show_nat (n div 10))" by simp
    with False show ?thesis by (subst show_nat.simps, subst (2) show_nat.simps) (simp add: d)
  qed
qed

lemma show_int_chars: "c \<in> set (show_int i) \<Longrightarrow> is_digit c \<or> c = CHR ''-''"
  using show_nat_digits [of "nat i"] show_nat_digits [of "nat (- i)"]
  by (auto simp: show_int_def list_all_iff split: if_splits)

lemma contains_absent: "x \<notin> set s \<Longrightarrow> \<not> contains (x # needle) s"
  by (induction s) (auto simp: prefix_Cons)

lemma failure_notice_sets_off_nothing:
  "\<not> contains ''Evolution process completed'' (failure_notice return_code)"
proof -
  have "CHR ''E'' \<notin> set (show_int return_code)"
    using show_int_chars [of "CHR ''E''" return_code] by (auto simp: is_digit_def)
  then have "\<not> contains ''Evolution process completed'' (show_int return_code)"
    by (rule contains_absent)
  then show ?thesis by (simp add: failure_notice_def)
qed

lemma stream_output_prefixes:
  "e \<in> set (fst (stream_output py lines)) \<Longrightarrow> prefix ''[STDOUT] '' e \<or> prefix ''[METRIC_JSON] '' e"
proof (induction lines)
  case Nil
  then show ?case by simp
next
  case (Cons line rest)
  then show ?case
    by (cases line) (auto simp: yield_def Let_def split: option.splits sum.splits)
qed

lemma failure_notice_is_new: "failure_notice return_code \<notin> set (fst (stream_output py lines))"
  using stream_output_prefixes [of "failure_notice return_code" py lines]
  by (auto simp: failure_notice_def)

text \<open>
  Claim C4, as the code has it. When the loop has read the output of the child to its
  end without an exception, the child has exited with a return code that is not 0, and
  the task is not cancelled, the runner ends normally, the process handle holds the
  return code (no run is running), and the last event put on the queue is the notice
  \<open>[ERROR] Evolution process failed with exit code N\<close>, which occurs once. No webhook is
  attempted for the failure: the requests the runner posts are the completion webhooks
  set off by events that contain "Evolution process completed" (none when no url is
  configured), and the notice sets off none.
\<close>

theorem failed_child_is_reported_once_without_webhook:
  assumes "return_code \<noteq> 0" and "snd (stream_output py lines) = None" and "no_cancellation net"
  shows "fst (process_runner py net now config_data (Child lines return_code) sv) = None
   \<and> process (snd (process_runner py net now config_data (Child lines return_code) sv))
       = Some (Exited return_code)
   \<and> \<not> is_running (snd (process_runner py net now config_data (Child lines return_code) sv))
   \<and> log_queue (snd (process_runner py net now config_data (Child lines return_code) sv))
       = log_queue sv @ fst (stream_output py lines) @ [failure_notice return_code]
   \<and> failure_notice return_code \<notin> set (fst (stream_output py lines))
   \<and> posts (snd (process_runner py net now config_data (Child lines return_code) sv))
       = posts sv @ replicate (completions config_data (fst (stream_output py lines)))
                      (completion_request now config_data)"
proof -
  from assms(2) obtain evs where s: "stream_output py lines = (evs, None)"
    by (cases "stream_output py lines") simp
  let ?sv0 = "sv\<lparr>process := Some (Exited return_code)\<rparr>"
  let ?loop = "runner_loop net now config_data (evs @ [failure_notice return_code]) ?sv0"
  from assms(1) s have r: "run_evolution py (Child lines return_code)
                             = (evs @ [failure_notice return_code], None)"
    by (simp add: run_evolution_def failure_notice_def)
  note e = runner_loop_effect [OF assms(3), of now config_data
             "evs @ [failure_notice return_code]" ?sv0]
  from e have l: "?loop = (None, snd ?loop)" by (cases ?loop) simp
  have p: "process_runner py net now config_data (Child lines return_code) sv = (None, snd ?loop)"
    unfolding process_runner_def r by (simp add: process_after_def) (subst l, simp)
  have c: "completions config_data (evs @ [failure_notice return_code])
             = completions config_data evs"
    by (simp add: completions_def failure_notice_sets_off_nothing)
  have n: "failure_notice return_code \<notin> set evs"
    using failure_notice_is_new [of return_code py lines] s by simp
  from e c n show ?thesis
    unfolding p by (simp add: is_running_def s)
qed

lemma strip_boom: "strip ''boom\<newline>'' = ''boom''"
  by code_simp

lemma search_boom: "re_search metric_pattern ''boom'' = None"
  by code_simp

lemma show_int_1: "show_int 1 = ''1''"
  using digit_char_table(2) by (simp add: show_int_def show_nat.simps)

lemma failure_notice_1: "failure_notice 1 = ''[ERROR] Evolution process failed with exit code 1''"
  by (simp add: failure_notice_def show_int_1)

lemma boom_stream: "stream_output fixed_python [Inr ''boom\<newline>''] = ([''[STDOUT] boom''], None)"
  by (simp add: strip_boom search_boom yield_def)

theorem failed_child_is_reported_once_without_webhook_witness:
  "(1::int) \<noteq> 0
   \<and> snd (stream_output fixed_python [Inr ''boom\<newline>'']) = None
   \<and> no_cancellation (\<lambda>req :: int http_post. Response 200 (Inr []))
   \<and> log_queue (snd (process_runner fixed_python (\<lambda>req. Response 200 (Inr []))
                        ''2025-01-01T00:00:00'' hooked_config (Child [Inr ''boom\<newline>''] 1) start_state))
       = [''[STDOUT] boom'', ''[ERROR] Evolution process failed with exit code 1'']
   \<and> posts (snd (process_runner fixed_python (\<lambda>req. Response 200 (Inr []))
                    ''2025-01-01T00:00:00'' hooked_config (Child [Inr ''boom\<newline>''] 1) start_state))
       = []"
proof -
  have a: "(1::int) \<noteq> 0" by simp
  have b: "snd (stream_output fixed_python [Inr ''boom\<newline>'']) = None"
    unfolding boom_stream by simp
  have c: "no_cancellation (\<lambda>req :: int http_post. Response 200 (Inr []))"
    by (simp add: no_cancellation_def)
  have d: "completions hooked_config [''[STDOUT] boom''] = 0"
    by (simp add: completions_def)
  from failed_child_is_reported_once_without_webhook
         [OF a b c, of "''2025-01-01T00:00:00''" hooked_config start_state]
  show ?thesis using a b c
    unfolding boom_stream failure_notice_1 by (simp add: start_state_def d)
qed

text \<open>
  The claim as written fails on the webhook. With a url configured, a child that prints
  nothing and exits with code 1 leaves the notice on the queue, and no request at all
  has been posted.
\<close>

theorem no_webhook_is_attempted_for_a_failed_child:
  "truthy (get_external_api_url hooked_config)
   \<and> log_queue (snd (process_runner fixed_python (\<lambda>req. Response 200 (Inr []))
                        ''2025-01-01T00:00:00'' hooked_config (Child [] 1) start_state))
       = [''[ERROR] Evolution process failed with exit code 1'']
   \<and> posts (snd (process_runner fixed_python (\<lambda>req. Response 200 (Inr []))
                    ''2025-01-01T00:00:00'' hooked_config (Child [] 1) start_state))
       = []"
proof -
  have r: "run_evolution fixed_python (Child [] 1)
             = ([''[ERROR] Evolution process failed with exit code 1''], None)"
    by (simp add: run_evolution_def show_int_1)
  have l: "runner_loop net now hooked_config [''[ERROR] Evolution process failed with exit code 1''] sv
             = (None, put ''[ERROR] Evolution process failed with exit code 1'' sv)"
    for net :: "int http_post \<Rightarrow> net_result" and now sv
    by (simp add: Let_def)
  show ?thesis
    unfolding process_runner_def r
    by (simp add: l hooked_config_def get_external_api_url_def truthy_def process_after_def
          put_def start_state_def)
qed

section \<open>The pattern: what the matcher finds\<close>

lemma first_some_None_iff: "first_some f xs = None \<longleftrightarrow> (\<forall>x \<in> set xs. f x = None)"
  by (induction xs) (auto split: option.splits)

lemma first_some_SomeD: "first_some f xs = Some y \<Longrightarrow> \<exists>x \<in> set xs. f x = Some y"
  by (induction xs) (auto split: option.splits)

lemma first_some_skip:
  "\<forall>z \<in> set before. f z = None \<Longrightarrow> first_some f (before @ xs) = first_some f xs"
  by (induction before) auto

lemma run_le_length: "run c s \<le> length s"
  by (simp add: run_def length_takeWhile_le)

lemma take_run_in_class: "k \<le> run c s \<Longrightarrow> list_all (in_class c) (take k s)"
proof -
  assume "k \<le> run c s"
  then have "take k s = take k (takeWhile (in_class c) s)"
    unfolding run_def
    by (metis append_eq_conv_conj takeWhile_dropWhile_id take_append diff_is_0_eq take_0 append_Nil2 take_all_iff order_refl)
  moreover have "list_all (in_class c) (takeWhile (in_class c) s)"
    by (simp add: list_all_iff) (meson set_takeWhileD)
  ultimately show ?thesis
    by (metis list_all_iff in_set_takeD)
qed

lemma in_class_le_run:
  assumes "list_all (in_class c) (take k s)" "k \<le> length s"
  shows "k \<le> run c s"
proof -
  have "s = take k s @ drop k s" by simp
  then have "takeWhile (in_class c) s = take k s @ takeWhile (in_class c) (drop k s)"
    using assms(1) by (metis list_all_iff takeWhile_append2)
  then show ?thesis using assms(2) by (simp add: run_def)
qed

lemma candidates_star: "set (rev [0 ..< Suc n]) = {k. k \<le> n}"
  by auto

lemma candidates_plus: "set (rev [1 ..< Suc n]) = {k. 1 \<le> k \<and> k \<le> n}"
  by auto

lemma candidates_search: "set [0 ..< Suc n] = {i. i \<le> n}"
  by auto

lemma re_match_Star_SomeD:
  assumes "re_match (Star c # r) s = Some gs"
  shows "\<exists>k \<le> run c s. re_match r (drop k s) = Some gs"
proof -
  from assms have "first_some (\<lambda>k. re_match r (drop k s)) (rev [0 ..< Suc (run c s)]) = Some gs"
    by (simp only: re_match.simps)
  from first_some_SomeD [OF this] show ?thesis
    unfolding candidates_star by auto
qed

lemma re_match_Star_found:
  assumes "k \<le> run c s" "re_match r (drop k s) \<noteq> None"
  shows "re_match (Star c # r) s \<noteq> None"
proof -
  from assms have "\<not> (\<forall>k \<in> set (rev [0 ..< Suc (run c s)]). re_match r (drop k s) = None)"
    unfolding candidates_star by auto
  then have "first_some (\<lambda>k. re_match r (drop k s)) (rev [0 ..< Suc (run c s)]) \<noteq> None"
    unfolding first_some_None_iff .
  then show ?thesis unfolding re_match.simps .
qed

lemma re_match_GroupPlus_SomeD:
  assumes "re_match (GroupPlus c # r) s = Some gs"
  shows "\<exists>k gs'. 1 \<le> k \<and> k \<le> run c s \<and> re_match r (drop k s) = Some gs' \<and> gs = take k s # gs'"
proof -
  from assms have "first_some (\<lambda>k. map_option ((#) (take k s)) (re_match r (drop k s)))
                     (rev [1 ..< Suc (run c s)]) = Some gs"
    by (simp only: re_match.simps)
  from first_some_SomeD [OF this] show ?thesis
    unfolding candidates_plus by auto
qed

lemma re_match_GroupPlus_found:
  assumes "1 \<le> k" "k \<le> run c s" "re_match r (drop k s) \<noteq> None"
  shows "re_match (GroupPlus c # r) s \<noteq> None"
proof -
  from assms have "\<not> (\<forall>k \<in> set (rev [1 ..< Suc (run c s)]).
                        map_option ((#) (take k s)) (re_match r (drop k s)) = None)"
    unfolding candidates_plus by auto
  then have "first_some (\<lambda>k. map_option ((#) (take k s)) (re_match r (drop k s)))
               (rev [1 ..< Suc (run c s)]) \<noteq> None"
    unfolding first_some_None_iff .
  then show ?thesis unfolding re_match.simps .
qed

text \<open>Whatever the matcher returns is a reading of the pattern.\<close>

lemma re_match_sound: "re_match p s = Some gs \<Longrightarrow> accepts p s gs"
proof (induction p arbitrary: s gs)
  case Nil
  then show ?case by simp
next
  case (Cons item r)
  show ?case
  proof (cases item)
    case (Lit l)
    with Cons show ?thesis by (auto split: if_splits)
  next
    case (Star c)
    from Cons.prems [unfolded Star] obtain k
      where k: "k \<le> run c s" "re_match r (drop k s) = Some gs"
      using re_match_Star_SomeD by metis
    from Cons.IH [OF k(2)] have "accepts r (drop k s) gs" .
    moreover from k have "k \<le> length s" using run_le_length [of c s] by simp
    moreover from k have "list_all (in_class c) (take k s)" by (simp add: take_run_in_class)
    ultimately show ?thesis unfolding Star accepts.simps by auto
  next
    case (GroupPlus c)
    from Cons.prems [unfolded GroupPlus] obtain k gs' where k: "1 \<le> k" "k \<le> run c s"
        "re_match r (drop k s) = Some gs'" "gs = take k s # gs'"
      using re_match_GroupPlus_SomeD by metis
    from Cons.IH [OF k(3)] have "accepts r (drop k s) gs'" .
    moreover from k have l: "k \<le> length s" using run_le_length [of c s] by simp
    moreover from k have "list_all (in_class c) (take k s)" by (simp add: take_run_in_class)
    moreover from k l have "take k s \<noteq> []" by auto
    moreover have "prefix (take k s) s" by (simp add: take_is_prefix)
    moreover from l have "drop (length (take k s)) s = drop k s" by (simp add: min_def)
    ultimately show ?thesis unfolding GroupPlus k(4) accepts.simps by (simp del: length_take)
  qed
qed

text \<open>Where the pattern has a reading, the matcher returns one.\<close>

lemma re_match_complete: "accepts p s gs \<Longrightarrow> re_match p s \<noteq> None"
proof (induction p arbitrary: s gs)
  case Nil
  then show ?case by simp
next
  case (Cons item r)
  show ?case
  proof (cases item)
    case (Lit l)
    with Cons show ?thesis by auto
  next
    case (Star c)
    from Cons.prems [unfolded Star] obtain k where k: "k \<le> length s"
        "list_all (in_class c) (take k s)" "accepts r (drop k s) gs" by auto
    from Cons.IH [OF k(3)] have n: "re_match r (drop k s) \<noteq> None" .
    from k have le: "k \<le> run c s" by (simp add: in_class_le_run)
    show ?thesis unfolding Star by (rule re_match_Star_found [OF le n])
  next
    case (GroupPlus c)
    from Cons.prems [unfolded GroupPlus] obtain g gs' where g: "gs = g # gs'" "g \<noteq> []"
        "list_all (in_class c) g" "prefix g s" "accepts r (drop (length g) s) gs'"
      by (cases gs) auto
    from g(4) have t: "take (length g) s = g" and l: "length g \<le> length s"
      by (auto simp: prefix_def)
    from Cons.IH [OF g(5)] have n: "re_match r (drop (length g) s) \<noteq> None" .
    from g(3) t l have le: "length g \<le> run c s" by (simp add: in_class_le_run)
    from g(2) have one: "1 \<le> length g" by (cases g) auto
    show ?thesis unfolding GroupPlus by (rule re_match_GroupPlus_found [OF one le n])
  qed
qed

lemma re_search_None_iff:
  "re_search p s = None \<longleftrightarrow> \<not> (\<exists>i \<le> length s. \<exists>gs. accepts p (drop i s) gs)"
proof
  assume "re_search p s = None"
  then have n: "\<forall>i \<le> length s. re_match p (drop i s) = None"
    unfolding re_search_def first_some_None_iff candidates_search by auto
  show "\<not> (\<exists>i \<le> length s. \<exists>gs. accepts p (drop i s) gs)"
  proof
    assume "\<exists>i \<le> length s. \<exists>gs. accepts p (drop i s) gs"
    then obtain i gs where "i \<le> length s" "accepts p (drop i s) gs" by auto
    with n re_match_complete [of p "drop i s" gs] show False by auto
  qed
next
  assume a: "\<not> (\<exists>i \<le> length s. \<exists>gs. accepts p (drop i s) gs)"
  have "re_match p (drop i s) = None" if "i \<le> length s" for i
  proof (cases "re_match p (drop i s)")
    case None
    then show ?thesis .
  next
    case (Some gs)
    from re_match_sound [OF this] that a show ?thesis by auto
  qed
  then show "re_search p s = None"
    unfolding re_search_def first_some_None_iff candidates_search by auto
qed


text \<open>
  When the text leaves the matcher no choice, the greedy choice is the only reading:
  a repetition stops where the class stops, and \<open>.*\<close> stops at the last place where the
  literal after it stands.
\<close>

lemma first_some_greedy:
  assumes "lo \<le> k" "k \<le> n" "\<forall>j. k < j \<and> j \<le> n \<longrightarrow> f j = None" "f k = Some y"
  shows "first_some f (rev [lo ..< Suc n]) = Some y"
  using assms
proof (induction n)
  case 0
  then show ?case by simp
next
  case (Suc n)
  show ?case
  proof (cases "k = Suc n")
    case True
    with Suc.prems show ?thesis by simp
  next
    case False
    with Suc.prems have "k \<le> n" "f (Suc n) = None" by auto
    moreover from this Suc have "first_some f (rev [lo ..< Suc n]) = Some y" by auto
    ultimately show ?thesis using Suc.prems(1) by simp
  qed
qed

lemma first_some_leftmost:
  assumes "k \<le> n" "\<forall>j < k. f j = None" "f k = Some y"
  shows "first_some f [0 ..< Suc n] = Some y"
proof -
  have "[0 ..< Suc n] = [0 ..< k] @ [k ..< Suc n]"
    using upt_add_eq_append [of 0 k "Suc n - k"] assms(1) by simp
  moreover have "[k ..< Suc n] = k # [Suc k ..< Suc n]"
    using assms(1) by (simp add: upt_conv_Cons del: upt_Suc)
  ultimately have "[0 ..< Suc n] = [0 ..< k] @ k # [Suc k ..< Suc n]" by simp
  moreover have "\<forall>z \<in> set [0 ..< k]. f z = None" using assms(2) by simp
  ultimately show ?thesis using assms(3) by (simp add: first_some_skip del: upt_Suc)
qed

lemma run_exact:
  assumes "list_all (in_class c) u" "t = [] \<or> \<not> in_class c (hd t)"
  shows "run c (u @ t) = length u"
proof -
  from assms(2) have "takeWhile (in_class c) t = []" by (cases t) auto
  with assms(1) show ?thesis by (simp add: run_def list_all_iff)
qed

lemma re_match_Star_exact:
  assumes "list_all (in_class c) u" "t = [] \<or> \<not> in_class c (hd t)" "re_match r t = Some gs"
  shows "re_match (Star c # r) (u @ t) = Some gs"
proof -
  have "first_some (\<lambda>k. re_match r (drop k (u @ t))) (rev [0 ..< Suc (length u)]) = Some gs"
    using assms(3) by (intro first_some_greedy [of 0 "length u"]) simp_all
  then show ?thesis unfolding re_match.simps run_exact [OF assms(1,2)] .
qed

lemma re_match_GroupPlus_exact:
  assumes "u \<noteq> []" "list_all (in_class c) u" "t = [] \<or> \<not> in_class c (hd t)"
      and "re_match r t = Some gs"
  shows "re_match (GroupPlus c # r) (u @ t) = Some (u # gs)"
proof -
  from assms(1) have "1 \<le> length u" by (cases u) auto
  then have "first_some (\<lambda>k. map_option ((#) (take k (u @ t))) (re_match r (drop k (u @ t))))
               (rev [1 ..< Suc (length u)]) = Some (u # gs)"
    using assms(4) by (intro first_some_greedy [of 1 "length u"]) simp_all
  then show ?thesis unfolding re_match.simps run_exact [OF assms(2,3)] .
qed

lemma contains_iff: "contains m s \<longleftrightarrow> (\<exists>i \<le> length s. prefix m (drop i s))"
proof (induction s)
  case Nil
  show ?case by simp
next
  case (Cons c s)
  have "(\<exists>i \<le> length (c # s). prefix m (drop i (c # s)))
          \<longleftrightarrow> prefix m (c # s) \<or> (\<exists>i \<le> length s. prefix m (drop i s))"
  proof
    assume "\<exists>i \<le> length (c # s). prefix m (drop i (c # s))"
    then obtain i where i: "i \<le> length (c # s)" "prefix m (drop i (c # s))" by auto
    show "prefix m (c # s) \<or> (\<exists>i \<le> length s. prefix m (drop i s))"
    proof (cases i)
      case 0
      with i show ?thesis by simp
    next
      case (Suc j)
      with i have "j \<le> length s" "prefix m (drop j s)" by simp_all
      then show ?thesis by auto
    qed
  next
    assume "prefix m (c # s) \<or> (\<exists>i \<le> length s. prefix m (drop i s))"
    then show "\<exists>i \<le> length (c # s). prefix m (drop i (c # s))"
    proof
      assume "prefix m (c # s)"
      then have "0 \<le> length (c # s) \<and> prefix m (drop 0 (c # s))" by simp
      then show ?thesis by (rule exI)
    next
      assume "\<exists>i \<le> length s. prefix m (drop i s)"
      then obtain i where "i \<le> length s" "prefix m (drop i s)" by auto
      then have "Suc i \<le> length (c # s) \<and> prefix m (drop (Suc i) (c # s))" by simp
      then show ?thesis by (rule exI)
    qed
  qed
  with Cons show ?case by simp
qed

lemma re_match_Star_Lit:
  assumes "list_all (in_class c) u" "m \<noteq> []" "\<not> contains m (tl (m @ t))"
      and "re_match r t = Some gs"
  shows "re_match (Star c # Lit m # r) (u @ m @ t) = Some gs"
proof -
  let ?f = "\<lambda>k. re_match (Lit m # r) (drop k (u @ m @ t))"
  have le: "length u \<le> run c (u @ m @ t)"
    using assms(1) by (intro in_class_le_run) simp_all
  have later: "?f j = None" if "length u < j" for j
  proof -
    from that obtain i where j: "j = length u + Suc i"
      by (metis less_iff_Suc_add add_Suc_right)
    have "drop j (u @ m @ t) = drop (Suc i) (m @ t)"
      unfolding j by simp
    then have d: "drop j (u @ m @ t) = drop i (tl (m @ t))"
      by (simp only: drop_Suc)
    have "\<not> prefix m (drop i (tl (m @ t)))"
    proof (cases "i \<le> length (tl (m @ t))")
      case True
      with assms(3) show ?thesis unfolding contains_iff by auto
    next
      case False
      with assms(2) show ?thesis by simp
    qed
    then show ?thesis unfolding d by simp
  qed
  have here: "?f (length u) = Some gs" using assms(4) by simp
  have "first_some ?f (rev [0 ..< Suc (run c (u @ m @ t))]) = Some gs"
    using le later here by (intro first_some_greedy [of 0 "length u"]) simp_all
  then show ?thesis unfolding re_match.simps(3) .
qed

lemma re_match_Lit: "re_match (Lit l # r) (l @ t) = re_match r t"
  by simp

lemma numeral_not_space: "in_class DigitOrDot c \<Longrightarrow> \<not> is_space c"
  by (auto simp: is_digit_def is_space_def)

lemma hd_numeral_text: "numeral_text s \<Longrightarrow> in_class DigitOrDot (hd (s @ t))"
  by (cases s) (auto simp: numeral_text_def)

text \<open>
  The groups of a text that starts with the template and reads in one way only: after
  the chosen \<open>Avg Reward:\<close> and \<open>Best Reward:\<close> the marker does not stand again, and what
  follows a number does not continue it.
\<close>

lemma anchored_template_groups:
  assumes ws: "list_all is_space ws1" "list_all is_space ws2" "list_all is_space ws3"
      and g: "g \<noteq> []" "list_all is_digit g" and G: "G \<noteq> []" "list_all is_digit G"
      and avg: "numeral_text avg" and best: "numeral_text best"
      and mid: "list_all (in_class AnyChar) mid1" "list_all (in_class AnyChar) mid2"
      and mid2_start: "mid2 = [] \<or> \<not> in_class DigitOrDot (hd mid2)"
      and post_start: "post = [] \<or> \<not> in_class DigitOrDot (hd post)"
      and avg_last: "\<not> contains ''Avg Reward:''
                       (''vg Reward:'' @ ws2 @ avg @ mid2 @ ''Best Reward:'' @ ws3 @ best @ post)"
      and best_last: "\<not> contains ''Best Reward:'' (''est Reward:'' @ ws3 @ best @ post)"
  shows "re_match metric_pattern
           (''Generation'' @ ws1 @ ''['' @ g @ ''/'' @ G @ '']:'' @ mid1 @ ''Avg Reward:'' @ ws2
              @ avg @ mid2 @ ''Best Reward:'' @ ws3 @ best @ post)
         = Some [g, G, avg, best]"
proof -
  let ?p15 = "[GroupPlus DigitOrDot]"
  let ?p14 = "Star Space # ?p15"
  let ?p12 = "Star AnyChar # Lit ''Best Reward:'' # ?p14"
  let ?p11 = "GroupPlus DigitOrDot # ?p12"
  let ?p10 = "Star Space # ?p11"
  let ?p8 = "Star AnyChar # Lit ''Avg Reward:'' # ?p10"
  let ?p7 = "Lit '']:'' # ?p8"
  let ?p6 = "GroupPlus Digit # ?p7"
  let ?p5 = "Lit ''/'' # ?p6"
  let ?p4 = "GroupPlus Digit # ?p5"
  let ?p3 = "Lit ''['' # ?p4"
  let ?p2 = "Star Space # ?p3"
  let ?t15 = "best @ post"
  let ?t14 = "ws3 @ ?t15"
  let ?t12 = "mid2 @ ''Best Reward:'' @ ?t14"
  let ?t11 = "avg @ ?t12"
  let ?t10 = "ws2 @ ?t11"
  let ?t8 = "mid1 @ ''Avg Reward:'' @ ?t10"
  let ?t7 = "'']:'' @ ?t8"
  let ?t6 = "G @ ?t7"
  let ?t5 = "''/'' @ ?t6"
  let ?t4 = "g @ ?t5"
  let ?t3 = "''['' @ ?t4"
  let ?t2 = "ws1 @ ?t3"
  have space: "in_class Space = is_space" and digit: "in_class Digit = is_digit"
    by (rule ext, simp)+
  note ws' = ws [folded space] and g' = g(2) [folded digit] and G' = G(2) [folded digit]
  from best have b: "best \<noteq> []" "list_all (in_class DigitOrDot) best"
    by (simp_all add: numeral_text_def)
  from avg have a: "avg \<noteq> []" "list_all (in_class DigitOrDot) avg"
    by (simp_all add: numeral_text_def)
  have "re_match [] post = Some []" by simp
  note r15 = re_match_GroupPlus_exact [OF b post_start this]
  have "?t15 = [] \<or> \<not> in_class Space (hd ?t15)"
    using hd_numeral_text [OF best, of post] numeral_not_space by auto
  note r14 = re_match_Star_exact [OF ws'(3) this r15]
  have "tl (''Best Reward:'' @ ?t14) = ''est Reward:'' @ ?t14" by simp
  with best_last have c12: "\<not> contains ''Best Reward:'' (tl (''Best Reward:'' @ ?t14))"
    by (simp only: not_False_eq_True)
  have n12: "''Best Reward:'' \<noteq> []" by simp
  note r12 = re_match_Star_Lit [OF mid(2) n12 c12 r14]
  have "?t12 = [] \<or> \<not> in_class DigitOrDot (hd ?t12)"
    using mid2_start by (cases mid2) (auto simp: is_digit_def)
  note r11 = re_match_GroupPlus_exact [OF a this r12]
  have "?t11 = [] \<or> \<not> in_class Space (hd ?t11)"
    using hd_numeral_text [OF avg, of ?t12] numeral_not_space by auto
  note r10 = re_match_Star_exact [OF ws'(2) this r11]
  have "tl (''Avg Reward:'' @ ?t10) = ''vg Reward:'' @ ?t10" by simp
  with avg_last have c8: "\<not> contains ''Avg Reward:'' (tl (''Avg Reward:'' @ ?t10))"
    by (simp only: not_False_eq_True)
  have n8: "''Avg Reward:'' \<noteq> []" by simp
  note r8 = re_match_Star_Lit [OF mid(1) n8 c8 r10]
  then have r7: "re_match ?p7 ?t7 = Some [avg, best]"
    by (simp only: re_match_Lit)
  have "?t7 = [] \<or> \<not> in_class Digit (hd ?t7)" by (simp add: is_digit_def)
  note r6 = re_match_GroupPlus_exact [OF G(1) G' this r7]
  then have r5: "re_match ?p5 ?t5 = Some [G, avg, best]"
    by (simp only: re_match_Lit)
  have "?t5 = [] \<or> \<not> in_class Digit (hd ?t5)" by (simp add: is_digit_def)
  note r4 = re_match_GroupPlus_exact [OF g(1) g' this r5]
  then have r3: "re_match ?p3 ?t3 = Some [g, G, avg, best]"
    by (simp only: re_match_Lit)
  have "?t3 = [] \<or> \<not> in_class Space (hd ?t3)" by (simp add: is_space_def)
  note r2 = re_match_Star_exact [OF ws'(1) this r3]
  then have "re_match (Lit ''Generation'' # ?p2) (''Generation'' @ ?t2) = Some [g, G, avg, best]"
    by (simp only: re_match_Lit)
  then show ?thesis by (simp only: metric_pattern_def)
qed

section \<open>The parser: the values of a line\<close>

lemma contains_skip:
  assumes "m \<noteq> []" "hd m \<notin> set u"
  shows "contains m (u @ v) = contains m v"
  using assms
proof (induction u)
  case Nil
  show ?case by simp
next
  case (Cons c u)
  from Cons.prems have "\<not> prefix m (c # u @ v)" by (cases m) auto
  with Cons show ?case by simp
qed

lemma continues_number_iff: "\<not> continues_number s \<longleftrightarrow> (s = [] \<or> \<not> in_class DigitOrDot (hd s))"
  by (cases s) simp_all

lemma any_char_iff: "list_all (in_class AnyChar) s \<longleftrightarrow> CHR 0x0A \<notin> set s"
  by (induction s) auto

lemma class_absent: "list_all P s \<Longrightarrow> \<not> P c \<Longrightarrow> c \<notin> set s"
  by (auto simp: list_all_iff)

lemma numeral_text_class: "numeral_text s \<Longrightarrow> list_all (in_class DigitOrDot) s"
  by (simp add: numeral_text_def)

lemma no_match_before:
  assumes "\<not> contains ''Generation'' pre" "i < length pre"
  shows "re_match metric_pattern (drop i (pre @ ''Generation'' @ rest)) = None"
proof -
  define d where "d = drop i pre"
  from assms(2) have dn: "d \<noteq> []" by (simp add: d_def)
  have np: "\<not> prefix ''Generation'' d"
    using assms unfolding contains_iff d_def by auto
  have "\<not> prefix ''Generation'' (d @ ''Generation'' @ rest)"
  proof
    assume "prefix ''Generation'' (d @ ''Generation'' @ rest)"
    with np obtain us where us: "''Generation'' = d @ us" "prefix us (''Generation'' @ rest)"
      unfolding prefix_append by blast
    from dn obtain c d' where d: "d = c # d'" by (cases d) auto
    with us(1) have e: "''eneration'' = d' @ us" by simp
    show False
    proof (cases us)
      case Nil
      with us(1) np show False by simp
    next
      case (Cons u us')
      with us(2) have "u = CHR ''G''" by simp
      moreover from e Cons have "u \<in> set ''eneration''" by (metis in_set_conv_decomp)
      ultimately show False by simp
    qed
  qed
  moreover have "drop i (pre @ ''Generation'' @ rest) = d @ ''Generation'' @ rest"
    using assms(2) by (simp add: d_def)
  ultimately show ?thesis by (simp add: metric_pattern_def)
qed

lemma search_one_reading:
  assumes v: "template_values ws1 g G mid1 ws2 avg mid2 ws3 best"
      and u: "read_in_one_way pre mid2 ws3 best post"
  shows "re_search metric_pattern (template_line pre ws1 g G mid1 ws2 avg mid2 ws3 best post)
           = Some [g, G, avg, best]"
proof -
  let ?body = "''Generation'' @ ws1 @ ''['' @ g @ ''/'' @ G @ '']:'' @ mid1 @ ''Avg Reward:'' @ ws2
       @ avg @ mid2 @ ''Best Reward:'' @ ws3 @ best @ post"
  from v have ws: "list_all is_space ws1" "list_all is_space ws2" "list_all is_space ws3"
    and g: "g \<noteq> []" "list_all is_digit g" and G: "G \<noteq> []" "list_all is_digit G"
    and avg: "numeral_text avg" and best: "numeral_text best"
    and mid: "list_all (in_class AnyChar) mid1" "list_all (in_class AnyChar) mid2"
    by (simp_all add: template_values_def any_char_iff)
  from u have pre: "\<not> contains ''Generation'' pre"
    and a: "\<not> contains ''Avg Reward:'' (mid2 @ ''Best Reward:'' @ ws3 @ best @ post)"
    and b: "\<not> contains ''Best Reward:'' post"
    and c: "\<not> continues_number mid2" "\<not> continues_number post"
    unfolding read_in_one_way_def by blast+
  from c have m2: "mid2 = [] \<or> \<not> in_class DigitOrDot (hd mid2)"
    and po: "post = [] \<or> \<not> in_class DigitOrDot (hd post)"
    unfolding continues_number_iff by blast+
  have "CHR ''A'' \<notin> set ws2"
    by (rule class_absent [OF ws(2)]) (simp add: is_space_def)
  moreover have "CHR ''A'' \<notin> set avg"
    by (rule class_absent [OF numeral_text_class [OF avg]]) (simp add: is_digit_def)
  ultimately have "CHR ''A'' \<notin> set (''vg Reward:'' @ ws2 @ avg)" by simp
  then have "hd ''Avg Reward:'' \<notin> set (''vg Reward:'' @ ws2 @ avg)" by simp
  from contains_skip [OF _ this, of "mid2 @ ''Best Reward:'' @ ws3 @ best @ post"] a
  have a': "\<not> contains ''Avg Reward:''
               (''vg Reward:'' @ ws2 @ avg @ mid2 @ ''Best Reward:'' @ ws3 @ best @ post)"
    by simp
  have "CHR ''B'' \<notin> set ws3"
    by (rule class_absent [OF ws(3)]) (simp add: is_space_def)
  moreover have "CHR ''B'' \<notin> set best"
    by (rule class_absent [OF numeral_text_class [OF best]]) (simp add: is_digit_def)
  ultimately have "CHR ''B'' \<notin> set (''est Reward:'' @ ws3 @ best)" by simp
  then have "hd ''Best Reward:'' \<notin> set (''est Reward:'' @ ws3 @ best)" by simp
  from contains_skip [OF _ this, of post] b
  have b': "\<not> contains ''Best Reward:'' (''est Reward:'' @ ws3 @ best @ post)"
    by simp
  note here = anchored_template_groups [OF ws g G avg best mid m2 po a' b']
  have "first_some (\<lambda>i. re_match metric_pattern (drop i (pre @ ?body)))
          [0 ..< Suc (length (pre @ ?body))] = Some [g, G, avg, best]"
  proof (rule first_some_leftmost [of "length pre"])
    show "length pre \<le> length (pre @ ?body)" by simp
    show "\<forall>j < length pre. re_match metric_pattern (drop j (pre @ ?body)) = None"
      using no_match_before [OF pre] by blast
    show "re_match metric_pattern (drop (length pre) (pre @ ?body)) = Some [g, G, avg, best]"
      using here by simp
  qed
  then show ?thesis unfolding re_search_def template_line_def .
qed





lemma accepts_LitE:
  assumes "accepts (Lit l # r) s gs"
  obtains t where "s = l @ t" "accepts r t gs"
proof -
  from assms have "prefix l s" "accepts r (drop (length l) s) gs" by simp_all
  from this(1) obtain t where t: "s = l @ t" unfolding prefix_def by blast
  with \<open>accepts r (drop (length l) s) gs\<close> have "accepts r t gs" by simp
  with t show thesis by (rule that)
qed

lemma accepts_StarE:
  assumes "accepts (Star c # r) s gs"
  obtains u t where "s = u @ t" "list_all (in_class c) u" "accepts r t gs"
proof -
  from assms obtain k where k: "list_all (in_class c) (take k s)" "accepts r (drop k s) gs"
    unfolding accepts.simps by blast
  have "s = take k s @ drop k s" by simp
  from this k show thesis by (rule that)
qed

lemma accepts_GroupPlusE:
  assumes "accepts (GroupPlus c # r) s gs"
  obtains u t gs' where "s = u @ t" "gs = u # gs'" "u \<noteq> []" "list_all (in_class c) u"
    "accepts r t gs'"
proof (cases gs)
  case Nil
  with assms show thesis by simp
next
  case (Cons u gs')
  with assms have u: "u \<noteq> []" "list_all (in_class c) u" "prefix u s"
    "accepts r (drop (length u) s) gs'"
    by simp_all
  from u(3) obtain t where t: "s = u @ t" unfolding prefix_def by blast
  with u(4) have "accepts r t gs'" by simp
  from t Cons u(1,2) this show thesis by (rule that)
qed

lemma space_class: "in_class Space = is_space"
  by (rule ext) simp

lemma digit_class: "in_class Digit = is_digit"
  by (rule ext) simp


lemma accepted_is_template_line:
  assumes "accepts metric_pattern t gs"
  shows "\<exists>ws1 g G mid1 ws2 avg mid2 ws3 best post.
           t = template_line [] ws1 g G mid1 ws2 avg mid2 ws3 best post
           \<and> gs = [g, G, avg, best] \<and> template_values ws1 g G mid1 ws2 avg mid2 ws3 best"
proof -
  note a = assms [unfolded metric_pattern_def]
  from a obtain t1 where t1: "t = ''Generation'' @ t1" and a1: "accepts
      [Star Space, Lit ''['', GroupPlus Digit, Lit ''/'', GroupPlus Digit,
       Lit '']:'', Star AnyChar, Lit ''Avg Reward:'', Star Space, GroupPlus DigitOrDot,
       Star AnyChar, Lit ''Best Reward:'', Star Space, GroupPlus DigitOrDot] t1 gs"
    by (rule accepts_LitE)
  from a1 obtain ws1 t2 where t2: "t1 = ws1 @ t2" and ws1: "list_all (in_class Space) ws1"
    and a2: "accepts
      [Lit ''['', GroupPlus Digit, Lit ''/'', GroupPlus Digit,
       Lit '']:'', Star AnyChar, Lit ''Avg Reward:'', Star Space, GroupPlus DigitOrDot,
       Star AnyChar, Lit ''Best Reward:'', Star Space, GroupPlus DigitOrDot] t2 gs"
    by (rule accepts_StarE)
  from a2 obtain t3 where t3: "t2 = ''['' @ t3" and a3: "accepts
      [GroupPlus Digit, Lit ''/'', GroupPlus Digit,
       Lit '']:'', Star AnyChar, Lit ''Avg Reward:'', Star Space, GroupPlus DigitOrDot,
       Star AnyChar, Lit ''Best Reward:'', Star Space, GroupPlus DigitOrDot] t3 gs"
    by (rule accepts_LitE)
  from a3 obtain g t4 gs1 where t4: "t3 = g @ t4" and gs: "gs = g # gs1"
    and g: "g \<noteq> []" "list_all (in_class Digit) g" and a4: "accepts
      [Lit ''/'', GroupPlus Digit,
       Lit '']:'', Star AnyChar, Lit ''Avg Reward:'', Star Space, GroupPlus DigitOrDot,
       Star AnyChar, Lit ''Best Reward:'', Star Space, GroupPlus DigitOrDot] t4 gs1"
    by (rule accepts_GroupPlusE)
  from a4 obtain t5 where t5: "t4 = ''/'' @ t5" and a5: "accepts
      [GroupPlus Digit,
       Lit '']:'', Star AnyChar, Lit ''Avg Reward:'', Star Space, GroupPlus DigitOrDot,
       Star AnyChar, Lit ''Best Reward:'', Star Space, GroupPlus DigitOrDot] t5 gs1"
    by (rule accepts_LitE)
  from a5 obtain G t6 gs2 where t6: "t5 = G @ t6" and gs1: "gs1 = G # gs2"
    and G: "G \<noteq> []" "list_all (in_class Digit) G" and a6: "accepts
      [Lit '']:'', Star AnyChar, Lit ''Avg Reward:'', Star Space, GroupPlus DigitOrDot,
       Star AnyChar, Lit ''Best Reward:'', Star Space, GroupPlus DigitOrDot] t6 gs2"
    by (rule accepts_GroupPlusE)
  from a6 obtain t7 where t7: "t6 = '']:'' @ t7" and a7: "accepts
      [Star AnyChar, Lit ''Avg Reward:'', Star Space, GroupPlus DigitOrDot,
       Star AnyChar, Lit ''Best Reward:'', Star Space, GroupPlus DigitOrDot] t7 gs2"
    by (rule accepts_LitE)
  from a7 obtain mid1 t8 where t8: "t7 = mid1 @ t8" and mid1: "list_all (in_class AnyChar) mid1"
    and a8: "accepts
      [Lit ''Avg Reward:'', Star Space, GroupPlus DigitOrDot,
       Star AnyChar, Lit ''Best Reward:'', Star Space, GroupPlus DigitOrDot] t8 gs2"
    by (rule accepts_StarE)
  from a8 obtain t9 where t9: "t8 = ''Avg Reward:'' @ t9" and a9: "accepts
      [Star Space, GroupPlus DigitOrDot,
       Star AnyChar, Lit ''Best Reward:'', Star Space, GroupPlus DigitOrDot] t9 gs2"
    by (rule accepts_LitE)
  from a9 obtain ws2 t10 where t10: "t9 = ws2 @ t10" and ws2: "list_all (in_class Space) ws2"
    and a10: "accepts
      [GroupPlus DigitOrDot,
       Star AnyChar, Lit ''Best Reward:'', Star Space, GroupPlus DigitOrDot] t10 gs2"
    by (rule accepts_StarE)
  from a10 obtain avg t11 gs3 where t11: "t10 = avg @ t11" and gs2: "gs2 = avg # gs3"
    and avg: "avg \<noteq> []" "list_all (in_class DigitOrDot) avg" and a11: "accepts
      [Star AnyChar, Lit ''Best Reward:'', Star Space, GroupPlus DigitOrDot] t11 gs3"
    by (rule accepts_GroupPlusE)
  from a11 obtain mid2 t12 where t12: "t11 = mid2 @ t12" and mid2: "list_all (in_class AnyChar) mid2"
    and a12: "accepts [Lit ''Best Reward:'', Star Space, GroupPlus DigitOrDot] t12 gs3"
    by (rule accepts_StarE)
  from a12 obtain t13 where t13: "t12 = ''Best Reward:'' @ t13"
    and a13: "accepts [Star Space, GroupPlus DigitOrDot] t13 gs3"
    by (rule accepts_LitE)
  from a13 obtain ws3 t14 where t14: "t13 = ws3 @ t14" and ws3: "list_all (in_class Space) ws3"
    and a14: "accepts [GroupPlus DigitOrDot] t14 gs3"
    by (rule accepts_StarE)
  from a14 obtain best post gs4 where t15: "t14 = best @ post" and gs3: "gs3 = best # gs4"
    and best: "best \<noteq> []" "list_all (in_class DigitOrDot) best" and a15: "accepts [] post gs4"
    by (rule accepts_GroupPlusE)
  from a15 have gs4: "gs4 = []" by simp
  have line: "t = template_line [] ws1 g G mid1 ws2 avg mid2 ws3 best post"
    unfolding template_line_def t1 t2 t3 t4 t5 t6 t7 t8 t9 t10 t11 t12 t13 t14 t15 by simp
  have groups: "gs = [g, G, avg, best]"
    unfolding gs gs1 gs2 gs3 gs4 ..
  have "values": "template_values ws1 g G mid1 ws2 avg mid2 ws3 best"
    unfolding template_values_def numeral_text_def any_char_iff [symmetric]
    using ws1 ws2 ws3 g G avg best mid1 mid2
    unfolding space_class digit_class by blast
  from line groups "values" show ?thesis by blast
qed










section \<open>The fallback simulator\<close>

lemma accepted_has_markers:
  assumes "accepts metric_pattern t gs"
  shows "CHR ''G'' \<in> set t" and "CHR ''['' \<in> set t"
proof -
  from accepted_is_template_line [OF assms]
  obtain ws1 g G mid1 ws2 avg mid2 ws3 best post where
    "t = template_line [] ws1 g G mid1 ws2 avg mid2 ws3 best post"
    by blast
  then show "CHR ''G'' \<in> set t" and "CHR ''['' \<in> set t"
    by (simp_all add: template_line_def)
qed

lemma search_needs_markers:
  assumes "CHR ''G'' \<notin> set s \<or> CHR ''['' \<notin> set s"
  shows "re_search metric_pattern s = None"
proof -
  have "\<not> accepts metric_pattern (drop i s) gs" for i gs
  proof
    assume "accepts metric_pattern (drop i s) gs"
    from accepted_has_markers [OF this] have "CHR ''G'' \<in> set s" "CHR ''['' \<in> set s"
      by (auto dest: in_set_dropD)
    with assms show False by blast
  qed
  then show ?thesis unfolding re_search_None_iff by blast
qed

lemma show_int_no_letter: "\<not> is_digit c \<Longrightarrow> c \<noteq> CHR ''-'' \<Longrightarrow> c \<notin> set (show_int i)"
  using show_int_chars [of c i] by blast

lemma show_int_digits: "0 \<le> i \<Longrightarrow> show_int i \<noteq> [] \<and> list_all is_digit (show_int i)"
  using show_nat_digits [of "nat i"] by (simp add: show_int_def)

lemma G_not_digit: "\<not> is_digit CHR ''G''" "\<not> is_digit CHR ''[''" "\<not> is_digit CHR ''A''"
  "\<not> is_digit CHR ''B''"
  by (simp_all add: is_digit_def)

lemma numeral_text_absent:
  "numeral_text s \<Longrightarrow> \<not> is_digit c \<Longrightarrow> c \<noteq> CHR ''.'' \<Longrightarrow> c \<notin> set s"
  by (rule class_absent [OF numeral_text_class]) simp_all

lemma banner_unmatched:
  "re_search metric_pattern ''--- ModelScope AgentEvolver (SIMULATION) ---'' = None"
  by (rule search_needs_markers) simp

lemma population_unmatched:
  "re_search metric_pattern (''[INFO] Initializing population of '' @ show_int n @ '' agents...'') = None"
proof (rule search_needs_markers)
  have "CHR ''G'' \<notin> set (show_int n)"
    by (rule show_int_no_letter) (simp_all add: is_digit_def)
  then show "CHR ''G'' \<notin> set (''[INFO] Initializing population of '' @ show_int n @ '' agents...'')
        \<or> CHR ''['' \<notin> set (''[INFO] Initializing population of '' @ show_int n @ '' agents...'')"
    by simp
qed

lemma empty_unmatched: "re_search metric_pattern [] = None"
  by (rule search_needs_markers) simp

lemma starting_unmatched:
  "re_search metric_pattern (''--- Starting Generation '' @ show_int g @ '' ---'') = None"
proof (rule search_needs_markers)
  have "CHR ''['' \<notin> set (show_int g)"
    by (rule show_int_no_letter) (simp_all add: is_digit_def)
  then show "CHR ''G'' \<notin> set (''--- Starting Generation '' @ show_int g @ '' ---'')
        \<or> CHR ''['' \<notin> set (''--- Starting Generation '' @ show_int g @ '' ---'')"
    by simp
qed

lemma finished_unmatched: "re_search metric_pattern ''[INFO] Optimization Finished.'' = None"
  by (rule search_needs_markers) simp

lemma agent_unmatched:
  assumes "numeral_text (format_4f py score)"
  shows "re_search metric_pattern (render py (AgentScore i pop_size score)) = None"
proof (rule search_needs_markers)
  have "CHR ''G'' \<notin> set (show_int i)" "CHR ''G'' \<notin> set (show_int pop_size)"
    by (rule show_int_no_letter, simp_all add: is_digit_def)+
  moreover have "CHR ''G'' \<notin> set (format_4f py score)"
    by (rule numeral_text_absent [OF assms]) (simp_all add: is_digit_def)
  ultimately show "CHR ''G'' \<notin> set (render py (AgentScore i pop_size score))
        \<or> CHR ''['' \<notin> set (render py (AgentScore i pop_size score))"
    by simp
qed

lemma summary_matched:
  assumes "0 \<le> g" "0 \<le> gens" "numeral_text (format_4f py a)" "numeral_text (format_4f py b)"
  shows "re_search metric_pattern (render py (GenerationSummary g gens a b))
           = Some [show_int g, show_int gens, format_4f py a, format_4f py b]"
proof -
  have v: "template_values '' '' (show_int g) (show_int gens) '' '' '' '' (format_4f py a) '', ''
             '' '' (format_4f py b)"
    unfolding template_values_def
    using show_int_digits [OF assms(1)] show_int_digits [OF assms(2)] assms(3,4)
    by (simp add: is_space_def)
  have "CHR ''A'' \<notin> set (format_4f py b)"
    by (rule numeral_text_absent [OF assms(4)]) (simp_all add: is_digit_def)
  then have "CHR ''A'' \<notin> set ('', '' @ ''Best Reward:'' @ '' '' @ format_4f py b @ [])" by simp
  then have c: "\<not> contains ''Avg Reward:'' ('', '' @ ''Best Reward:'' @ '' '' @ format_4f py b @ [])"
    by (rule contains_absent)
  have n: "\<not> contains ''Generation'' []" "\<not> contains ''Best Reward:'' []"
    "\<not> continues_number '', ''" "\<not> continues_number []"
    by (simp_all add: is_digit_def)
  from c n have u: "read_in_one_way [] '', '' '' '' (format_4f py b) []"
    unfolding read_in_one_way_def by blast
  from search_one_reading [OF v u] show ?thesis
    by (simp add: template_line_def)
qed

lemma matched_groups_append:
  "matched_groups (xs @ ys) = matched_groups xs @ matched_groups ys"
  by (simp add: matched_groups_def map_filter_def)

lemma matched_groups_Cons_None:
  "re_search metric_pattern x = None \<Longrightarrow> matched_groups (x # xs) = matched_groups xs"
  by (simp add: matched_groups_def map_filter_simps)

lemma matched_groups_Cons_Some:
  "re_search metric_pattern x = Some gs \<Longrightarrow> matched_groups (x # xs) = gs # matched_groups xs"
  by (simp add: matched_groups_def map_filter_simps)

lemma matched_groups_Nil: "matched_groups [] = []"
  by (simp add: matched_groups_def map_filter_simps)

lemma matched_groups_unmatched:
  "\<forall>x \<in> set xs. re_search metric_pattern x = None \<Longrightarrow> matched_groups xs = []"
  by (induction xs) (simp_all add: matched_groups_Nil matched_groups_Cons_None)

lemma generation_loop_groups:
  assumes "\<forall>g \<in> set gs. 0 \<le> g" "gs \<noteq> [] \<longrightarrow> 0 \<le> gens"
      and "\<forall>x \<in> set (concat (map floats_of
                 (generation_loop py uniform gens pop_size gs current_best drawn))).
             numeral_text (format_4f py x)"
  shows "map (take 2) (matched_groups (map (render py)
            (generation_loop py uniform gens pop_size gs current_best drawn)))
         = map (\<lambda>g. [show_int g, show_int gens]) gs"
  using assms
proof (induction gs arbitrary: current_best drawn)
  case Nil
  show ?case by (simp add: matched_groups_Nil)
next
  case (Cons g later)
  define avg_reward where
    "avg_reward = fmin py (float_lit py ''0.95'') (fadd py current_best (float_lit py ''0.05''))"
  define best_reward where
    "best_reward = fmin py (float_lit py ''0.99'') (fadd py current_best (float_lit py ''0.1''))"
  define agents where
    "agents = map (\<lambda>i. AgentScore i pop_size
                  (fmin py (float_lit py ''0.99'')
                     (fadd py current_best (uniform (drawn + nat (i - 1))))))
         [1 .. pop_size]"
  define rest where
    "rest = generation_loop py uniform gens pop_size later best_reward (drawn + nat pop_size)"
  have loop: "generation_loop py uniform gens pop_size (g # later) current_best drawn
        = [Text [], Text (''--- Starting Generation '' @ show_int g @ '' ---'')] @ agents
          @ GenerationSummary g gens avg_reward best_reward # rest"
    by (simp add: Let_def avg_reward_def best_reward_def agents_def rest_def)
  from Cons.prems(3) have fl: "\<forall>x \<in> set (concat (map floats_of agents)). numeral_text (format_4f py x)"
    and fa: "numeral_text (format_4f py avg_reward)"
    and fb: "numeral_text (format_4f py best_reward)"
    and fr: "\<forall>x \<in> set (concat (map floats_of rest)). numeral_text (format_4f py x)"
    unfolding loop by simp_all
  have "\<forall>x \<in> set (map (render py) agents). re_search metric_pattern x = None"
  proof
    fix x
    assume "x \<in> set (map (render py) agents)"
    then obtain l where l: "l \<in> set agents" "x = render py l" by auto
    then obtain i score where s: "l = AgentScore i pop_size score" by (auto simp: agents_def)
    with l(1) fl have "numeral_text (format_4f py score)" by force
    from agent_unmatched [OF this] show "re_search metric_pattern x = None"
      unfolding l(2) s .
  qed
  then have ag: "matched_groups (map (render py) agents) = []"
    by (rule matched_groups_unmatched)
  from Cons.prems(1,2) have g: "0 \<le> g" "0 \<le> gens" by simp_all
  note sm = summary_matched [OF g fa fb]
  have ih: "map (take 2) (matched_groups (map (render py) rest))
              = map (\<lambda>g. [show_int g, show_int gens]) later"
    unfolding rest_def
    using Cons.prems(1,2) fr [unfolded rest_def] by (intro Cons.IH) simp_all
  have st: "matched_groups (map (render py)
              [Text [], Text (''--- Starting Generation '' @ show_int g @ '' ---'')]) = []"
    using empty_unmatched starting_unmatched [of g]
    by (simp add: matched_groups_def map_filter_simps)
  have su: "matched_groups (map (render py) (GenerationSummary g gens avg_reward best_reward # rest))
        = [show_int g, show_int gens, format_4f py avg_reward, format_4f py best_reward]
          # matched_groups (map (render py) rest)"
    unfolding list.map by (rule matched_groups_Cons_Some [OF sm])
  have "matched_groups (map (render py)
            (generation_loop py uniform gens pop_size (g # later) current_best drawn))
        = [show_int g, show_int gens, format_4f py avg_reward, format_4f py best_reward]
          # matched_groups (map (render py) rest)"
    unfolding loop map_append matched_groups_append st ag su by simp
  then show ?case using ih by simp
qed


lemma simulation_groups:
  assumes "\<forall>x \<in> set (printed_floats py uniform config). numeral_text (format_4f py x)"
  shows "map (take 2) (matched_groups (map (render py) (simulation_output py uniform config)))
         = map (\<lambda>g. [show_int g, show_int (get_generations config)]) [1 .. get_generations config]"
proof -
  define gens where "gens = get_generations config"
  define pop_size where "pop_size = get_population_size config"
  define cycles where
    "cycles = generation_loop py uniform gens pop_size [1 .. gens] (float_lit py ''0.2'') 0"
  have out: "simulation_output py uniform config
        = [Text ''--- ModelScope AgentEvolver (SIMULATION) ---'',
           Text (''[INFO] Initializing population of '' @ show_int pop_size @ '' agents...'')]
          @ cycles @ [Text [], Text ''[INFO] Optimization Finished.'']"
    by (simp add: simulation_output_def Let_def gens_def pop_size_def cycles_def)
  have hd: "matched_groups (map (render py)
              [Text ''--- ModelScope AgentEvolver (SIMULATION) ---'',
               Text (''[INFO] Initializing population of '' @ show_int pop_size @ '' agents...'')]) = []"
    using banner_unmatched population_unmatched [of pop_size]
    by (simp add: matched_groups_def map_filter_simps)
  have tl: "matched_groups (map (render py) [Text [], Text ''[INFO] Optimization Finished.'']) = []"
    using empty_unmatched finished_unmatched
    by (simp add: matched_groups_def map_filter_simps)
  from assms have fl: "\<forall>x \<in> set (concat (map floats_of cycles)). numeral_text (format_4f py x)"
    unfolding printed_floats_def out by simp
  have "map (take 2) (matched_groups (map (render py) cycles))
          = map (\<lambda>g. [show_int g, show_int gens]) [1 .. gens]"
    unfolding cycles_def
  proof (rule generation_loop_groups)
    show "\<forall>g \<in> set [1 .. gens]. 0 \<le> g" by simp
    show "[1 .. gens] \<noteq> [] \<longrightarrow> 0 \<le> gens" by auto
    show "\<forall>x \<in> set (concat (map floats_of
             (generation_loop py uniform gens pop_size [1 .. gens] (float_lit py ''0.2'') 0))).
           numeral_text (format_4f py x)"
      using fl unfolding cycles_def .
  qed
  then show ?thesis
    unfolding out map_append matched_groups_append hd tl gens_def by simp
qed

text \<open>
  Claim C9, as the code has it. Take a configuration with \<open>generations = G\<close> whose output
  directory is not the empty path, and let each float the run prints be written by
  \<open>.4f\<close> in digits and a dot, and the name of the output directory be such that the
  closing line \<open>[INFO] Saved best agent to ...\<close> is not itself a generation line. Then the
  simulator runs to its end; the lines it prints that the pattern of the pump loop
  matches are one for each generation \<open>g\<close> from 1 to \<open>G\<close>, in this order, with the groups
  \<open>g\<close> and \<open>G\<close>, so there are \<open>G\<close> of them, and none when \<open>G\<close> is negative; and the file
  \<open>best_agent.pt\<close> of the output directory holds the checkpoint.
\<close>

theorem simulator_prints_one_generation_line_per_cycle:
  assumes "list_all (\<lambda>x. numeral_text (format_4f py x)) (printed_floats py uniform config)"
      and "get_output_dir config \<noteq> []"
      and "re_search metric_pattern (saved_notice config) = None"
  shows "snd (fst (run_fallback_simulation py uniform config files)) = None
   \<and> map (take 2) (matched_groups (fst (fst (run_fallback_simulation py uniform config files))))
       = map (\<lambda>g. [show_int g, show_int (get_generations config)]) [1 .. get_generations config]
   \<and> length (matched_groups (fst (fst (run_fallback_simulation py uniform config files))))
       = nat (get_generations config)
   \<and> snd (run_fallback_simulation py uniform config files)
       = files(path_join (get_output_dir config) ''best_agent.pt'' \<mapsto> ''mock_checkpoint_data'')"
proof -
  let ?printed = "map (render py) (simulation_output py uniform config)"
  from assms(2) have r: "run_fallback_simulation py uniform config files
      = ((?printed @ [saved_notice config], None),
         files(path_join (get_output_dir config) ''best_agent.pt'' \<mapsto> ''mock_checkpoint_data''))"
    by (simp add: run_fallback_simulation_def Let_def saved_notice_def)
  have "matched_groups [saved_notice config] = []"
    using assms(3) by (simp add: matched_groups_def map_filter_simps)
  then have m: "matched_groups (?printed @ [saved_notice config]) = matched_groups ?printed"
    by (simp add: matched_groups_append)
  from assms(1) have "\<forall>x \<in> set (printed_floats py uniform config). numeral_text (format_4f py x)"
    by (simp add: list_all_iff)
  note g = simulation_groups [OF this]
  have "length (matched_groups ?printed) = length (map (take 2) (matched_groups ?printed))"
    by simp
  also have "\<dots> = nat (get_generations config)"
    unfolding g by simp
  finally have l: "length (matched_groups ?printed) = nat (get_generations config)" .
  show ?thesis unfolding r using g l m by simp
qed


lemma fixed_lits:
  "fixed_lit ''0.2'' = 2000" "fixed_lit ''0.99'' = 9900" "fixed_lit ''0.95'' = 9500"
  "fixed_lit ''0.05'' = 500" "fixed_lit ''0.1'' = 1000"
  by (simp_all add: fixed_lit_def dec_of_def digit_val_def)

lemma two_cycles_floats:
  "printed_floats fixed_python (\<lambda>k. 500) two_cycles = [2500, 2500, 3000, 3500, 3500, 4000]"
  by (simp add: printed_floats_def simulation_output_def two_cycles_def get_generations_def
        get_population_size_def Let_def fixed_lits upto.simps)
     (simp add: fixed_python_def fixed_lits)

lemma two_cycles_texts:
  "fixed_4f 2500 = ''0.2500''" "fixed_4f 3000 = ''0.3000''" "fixed_4f 3500 = ''0.3500''"
  "fixed_4f 4000 = ''0.4000''"
  by (simp_all add: fixed_4f_def show_nat.simps digit_char_table Let_def)

lemma two_cycles_numerals:
  "list_all (\<lambda>x. numeral_text (format_4f fixed_python x))
     (printed_floats fixed_python (\<lambda>k. 500) two_cycles)"
  unfolding two_cycles_floats
  by (simp add: fixed_python_def two_cycles_texts numeral_text_def is_digit_def)

lemma two_cycles_dir: "get_output_dir two_cycles = ''workspace/outputs''"
  by (simp add: get_output_dir_def two_cycles_def)

lemma two_cycles_notice: "re_search metric_pattern (saved_notice two_cycles) = None"
  unfolding saved_notice_def two_cycles_dir by (rule search_needs_markers) simp

lemma show_int_2: "show_int 2 = ''2''"
  using digit_char_table(3) by (simp add: show_int_def show_nat.simps)

theorem simulator_prints_one_generation_line_per_cycle_witness:
  "list_all (\<lambda>x. numeral_text (format_4f fixed_python x))
     (printed_floats fixed_python (\<lambda>k. 500) two_cycles)
   \<and> get_output_dir two_cycles \<noteq> []
   \<and> re_search metric_pattern (saved_notice two_cycles) = None
   \<and> get_generations two_cycles = 2
   \<and> snd (fst (run_fallback_simulation fixed_python (\<lambda>k. 500) two_cycles Map.empty)) = None
   \<and> map (take 2) (matched_groups
          (fst (fst (run_fallback_simulation fixed_python (\<lambda>k. 500) two_cycles Map.empty))))
       = [[''1'', ''2''], [''2'', ''2'']]
   \<and> length (matched_groups
          (fst (fst (run_fallback_simulation fixed_python (\<lambda>k. 500) two_cycles Map.empty)))) = 2
   \<and> snd (run_fallback_simulation fixed_python (\<lambda>k. 500) two_cycles Map.empty)
        ''workspace/outputs/best_agent.pt'' = Some ''mock_checkpoint_data''"
proof -
  have d: "get_output_dir two_cycles \<noteq> []" by (simp add: two_cycles_dir)
  have g: "get_generations two_cycles = 2" by (simp add: get_generations_def two_cycles_def)
  have u: "[1 .. 2 :: int] = [1, 2]" by (simp add: upto.simps)
  have p: "path_join ''workspace/outputs'' ''best_agent.pt'' = ''workspace/outputs/best_agent.pt''"
    by (simp add: path_join_def)
  from simulator_prints_one_generation_line_per_cycle
         [OF two_cycles_numerals d two_cycles_notice, of Map.empty]
  show ?thesis
    using two_cycles_numerals d two_cycles_notice
    unfolding g two_cycles_dir p u by (simp add: show_int_1 show_int_2)
qed


text \<open>
  The claim as written fails in two ways. With \<open>generations = -1\<close> the simulator prints no
  generation line, not \<open>G\<close> of them. And with \<open>generations = 0\<close> and an output directory
  named like a generation line, the closing line is matched by the pattern: one line
  matches, and it carries 1 and not 0 as its total.
\<close>

theorem generation_lines_are_not_always_as_many_as_generations:
  "get_generations no_cycle = - 1
   \<and> matched_groups (fst (fst (run_fallback_simulation fixed_python (\<lambda>k. 500) no_cycle Map.empty)))
       = []
   \<and> get_generations line_in_path = 0
   \<and> matched_groups (fst (fst (run_fallback_simulation fixed_python (\<lambda>k. 500) line_in_path Map.empty)))
       = [[''1'', ''1'', ''1'', ''1'']]"
proof -
  have a: "get_generations no_cycle = - 1" by (simp add: get_generations_def no_cycle_def)
  have b: "matched_groups (fst (fst (run_fallback_simulation fixed_python (\<lambda>k. 500) no_cycle Map.empty)))
       = []"
    by code_simp
  have c: "get_generations line_in_path = 0" by (simp add: get_generations_def line_in_path_def)
  have d: "matched_groups (fst (fst (run_fallback_simulation fixed_python (\<lambda>k. 500) line_in_path Map.empty)))
       = [[''1'', ''1'', ''1'', ''1'']]"
    by code_simp
  from a b c d show ?thesis by blast
qed

end
